theory Spec2Isabelle
  imports Main "HOL-Library.Char_ord" "HOL-Library.List_Lexorder"
begin

section \<open>projanitor: a shallow embedding of \<^verbatim>\<open>projanitor.py\<close>\<close>

text \<open>
  The program audits a source tree: it finds the project root (\<open>find_project_root\<close>),
  walks the tree once (\<open>analyze_project_files\<close>) and prints a report
  (\<open>generate_report\<close>). Text is modelled as ASCII \<open>string\<close>s, a \<open>pathlib.Path\<close> as
  the list of its components below \<open>/\<close>, the directory tree as a datatype, Python
  dictionaries as association lists in insertion order, and the regular expressions
  of the source by a small backtracking matcher that follows the priorities of
  Python's \<open>re\<close> module.
\<close>

subsection \<open>Strings\<close>

definition ascii_lowercase :: string where
  "ascii_lowercase = ''abcdefghijklmnopqrstuvwxyz''"

definition ascii_uppercase :: string where
  "ascii_uppercase = ''ABCDEFGHIJKLMNOPQRSTUVWXYZ''"

definition digits :: string where
  "digits = ''0123456789''"

text \<open>\<open>str.lower()\<close> on ASCII text.\<close>

definition lower_char :: "char \<Rightarrow> char" where
  "lower_char c = (case map_of (zip ascii_uppercase ascii_lowercase) c of Some d \<Rightarrow> d | None \<Rightarrow> c)"

definition lower :: "string \<Rightarrow> string" where
  "lower s = map lower_char s"

text \<open>\<open>s.startswith(p)\<close> and \<open>s.endswith(p)\<close>.\<close>

fun startswith :: "string \<Rightarrow> string \<Rightarrow> bool" where
  "startswith s [] = True"
| "startswith [] (p # ps) = False"
| "startswith (c # cs) (p # ps) = (c = p \<and> startswith cs ps)"

definition endswith :: "string \<Rightarrow> string \<Rightarrow> bool" where
  "endswith s p = startswith (rev s) (rev p)"

text \<open>\<open>s.split(sep)\<close> for a one-character separator: every separator splits, empty pieces
  are kept, and the result is never empty.\<close>

fun split :: "char \<Rightarrow> string \<Rightarrow> string list" where
  "split sep [] = [[]]"
| "split sep (c # cs) =
     (if c = sep then [] # split sep cs
      else (case split sep cs of [] \<Rightarrow> [[c]] | w # ws \<Rightarrow> (c # w) # ws))"

text \<open>\<open>sep.join(xs)\<close>.\<close>

fun join :: "string \<Rightarrow> string list \<Rightarrow> string" where
  "join sep [] = []"
| "join sep [x] = x"
| "join sep (x # y # ys) = x @ sep @ join sep (y # ys)"

text \<open>\<open>str(n)\<close> for a natural number, as the f-strings of the report print counts.\<close>

fun str_nat :: "nat \<Rightarrow> string" where
  "str_nat n = (if n < 10 then [digits ! n] else str_nat (n div 10) @ [digits ! (n mod 10)])"

declare str_nat.simps [simp del]

subsection \<open>Regular expressions\<close>

text \<open>
  The patterns of the source use literals, character classes, \<open>*\<close>, \<open>+\<close>, the lazy
  \<open>*?\<close>, alternation, one capturing group and \<open>\b\<close>. A matcher state is the character
  before the current position (for \<open>\b\<close>), the text still to be read and the text
  captured by the group so far. \<open>rmatch\<close> returns every way to match, in the order in
  which Python's backtracking engine tries them: the head of the list is the match
  that \<open>re\<close> reports.
\<close>

datatype rx =
    Eps
  | Chr "char \<Rightarrow> bool"
  | Seq rx rx
  | Alt rx rx
  | Star rx
  | LazyStar rx
  | Grp rx
  | WordB

type_synonym mstate = "char option \<times> string \<times> string option"

definition unread :: "mstate \<Rightarrow> string" where
  "unread st = fst (snd st)"

text \<open>\<open>\s\<close> on ASCII text: space, \<open>\t \n \v \f \r\<close> and the four separators
  \<open>0x1c\<close> to \<open>0x1f\<close>. \<open>\w\<close> on ASCII text: letters, digits and the underscore.\<close>

definition whitespace :: string where
  "whitespace = [CHR '' '', CHR 0x09, CHR 0x0A, CHR 0x0B, CHR 0x0C, CHR 0x0D,
                 CHR 0x1C, CHR 0x1D, CHR 0x1E, CHR 0x1F]"

definition is_space :: "char \<Rightarrow> bool" where
  "is_space c = (c \<in> set whitespace)"

definition is_word :: "char \<Rightarrow> bool" where
  "is_word c = (c \<in> set (ascii_lowercase @ ascii_uppercase @ digits @ ''_''))"

definition at_word_boundary :: "char option \<Rightarrow> string \<Rightarrow> bool" where
  "at_word_boundary pv s =
     ((case pv of None \<Rightarrow> False | Some c \<Rightarrow> is_word c)
        \<noteq> (case s of [] \<Rightarrow> False | c # _ \<Rightarrow> is_word c))"

text \<open>Greedy and lazy repetition of a matcher \<open>f\<close>. Every round must read at least one
  character, so the length of the unread text bounds the number of rounds.\<close>

fun star_greedy :: "(mstate \<Rightarrow> mstate list) \<Rightarrow> nat \<Rightarrow> mstate \<Rightarrow> mstate list" where
  "star_greedy f 0 st = [st]"
| "star_greedy f (Suc n) st =
     concat (map (star_greedy f n)
                 (filter (\<lambda>st'. length (unread st') < length (unread st)) (f st))) @ [st]"

fun star_lazy :: "(mstate \<Rightarrow> mstate list) \<Rightarrow> nat \<Rightarrow> mstate \<Rightarrow> mstate list" where
  "star_lazy f 0 st = [st]"
| "star_lazy f (Suc n) st =
     st # concat (map (star_lazy f n)
                      (filter (\<lambda>st'. length (unread st') < length (unread st)) (f st)))"

primrec rmatch :: "rx \<Rightarrow> mstate \<Rightarrow> mstate list" where
  "rmatch Eps st = [st]"
| "rmatch (Chr P) st =
     (case st of (pv, s, g) \<Rightarrow>
        (case s of [] \<Rightarrow> [] | c # cs \<Rightarrow> if P c then [(Some c, cs, g)] else []))"
| "rmatch (Seq a b) st = concat (map (rmatch b) (rmatch a st))"
| "rmatch (Alt a b) st = rmatch a st @ rmatch b st"
| "rmatch (Star a) st = star_greedy (rmatch a) (length (unread st)) st"
| "rmatch (LazyStar a) st = star_lazy (rmatch a) (length (unread st)) st"
| "rmatch (Grp a) st =
     map (\<lambda>st'. (fst st', unread st',
                 Some (take (length (unread st) - length (unread st')) (unread st))))
         (rmatch a st)"
| "rmatch WordB st =
     (case st of (pv, s, g) \<Rightarrow> if at_word_boundary pv s then [st] else [])"

definition group1 :: "mstate \<Rightarrow> string" where
  "group1 st = (case snd (snd st) of None \<Rightarrow> [] | Some g \<Rightarrow> g)"

text \<open>\<open>re.findall(r, line)\<close> for a pattern with one group: the group of every match,
  scanning from the left, each search resuming where the previous match ended.\<close>

function findall_from :: "rx \<Rightarrow> char option \<Rightarrow> string \<Rightarrow> string list" where
  "findall_from r pv [] =
     (case rmatch r (pv, [], None) of [] \<Rightarrow> [] | st # _ \<Rightarrow> [group1 st])"
| "findall_from r pv (c # cs) =
     (case rmatch r (pv, c # cs, None) of
        [] \<Rightarrow> findall_from r (Some c) cs
      | st # _ \<Rightarrow>
          group1 st #
            (if length (unread st) < length (c # cs) then findall_from r (fst st) (unread st)
             else findall_from r (Some c) cs))"
  by pat_completeness auto
termination
  by (relation "measure (\<lambda>(r, pv, s). length s)") auto

definition findall :: "rx \<Rightarrow> string \<Rightarrow> string list" where
  "findall r line = findall_from r None line"

text \<open>\<open>re.search(r, line)\<close>: the group of the leftmost match, if there is one.\<close>

fun search_from :: "rx \<Rightarrow> char option \<Rightarrow> string \<Rightarrow> string option" where
  "search_from r pv [] =
     (case rmatch r (pv, [], None) of [] \<Rightarrow> None | st # _ \<Rightarrow> Some (group1 st))"
| "search_from r pv (c # cs) =
     (case rmatch r (pv, c # cs, None) of
        [] \<Rightarrow> search_from r (Some c) cs
      | st # _ \<Rightarrow> Some (group1 st))"

definition search :: "rx \<Rightarrow> string \<Rightarrow> string option" where
  "search r line = search_from r None line"

text \<open>Pattern builders: a literal, a literal under \<open>re.IGNORECASE\<close>, a class given by
  its members, \<open>r+\<close>, and an alternation of literals.\<close>

definition lit :: "string \<Rightarrow> rx" where
  "lit s = foldr (\<lambda>c r. Seq (Chr (\<lambda>x. x = c)) r) s Eps"

definition lit_ignorecase :: "string \<Rightarrow> rx" where
  "lit_ignorecase s = foldr (\<lambda>c r. Seq (Chr (\<lambda>x. lower_char x = lower_char c)) r) s Eps"

definition cls :: "string \<Rightarrow> rx" where
  "cls members = Chr (\<lambda>x. x \<in> set members)"

definition many1 :: "rx \<Rightarrow> rx" where
  "many1 r = Seq r (Star r)"

fun alts :: "string list \<Rightarrow> rx" where
  "alts [] = Chr (\<lambda>x. False)"
| "alts [w] = lit w"
| "alts (w # v # ws) = Alt (lit w) (alts (v # ws))"

definition seqs :: "rx list \<Rightarrow> rx" where
  "seqs rs = foldr Seq rs Eps"

text \<open>The four patterns of the source, in the order in which they appear there:
  \<^verbatim>\<open>project\s*\(\s*(\w+)\s*\)\<close> (with \<open>re.IGNORECASE\<close>),
  \<^verbatim>\<open>#\s*include\s*"([^"]+)"\<close>,
  \<^verbatim>\<open>\b([a-zA-Z0-9][a-zA-Z0-9_.-]*?\.(?:c|h|sh|py|json|md|cmake))\b\<close> and
  \<^verbatim>\<open>from\s+([a-zA-Z0-9_.-]+)\s+import\<close>.\<close>

definition dquote :: char where
  "dquote = CHR 0x22"

definition alnum :: string where
  "alnum = ascii_lowercase @ ascii_uppercase @ digits"

definition project_rx :: rx where
  "project_rx = seqs [lit_ignorecase ''project'', Star (Chr is_space), lit ''('',
                      Star (Chr is_space), Grp (many1 (Chr is_word)),
                      Star (Chr is_space), lit '')'']"

definition include_rx :: rx where
  "include_rx = seqs [lit ''#'', Star (Chr is_space), lit ''include'', Star (Chr is_space),
                      lit [dquote], Grp (many1 (Chr (\<lambda>x. x \<noteq> dquote))), lit [dquote]]"

definition cmake_rx :: rx where
  "cmake_rx = seqs [WordB,
                    Grp (seqs [cls alnum, LazyStar (cls (alnum @ ''_.-'')), lit ''.'',
                               alts [''c'', ''h'', ''sh'', ''py'', ''json'', ''md'', ''cmake'']]),
                    WordB]"

definition import_rx :: rx where
  "import_rx = seqs [lit ''from'', many1 (Chr is_space), Grp (many1 (cls (alnum @ ''_.-''))),
                     many1 (Chr is_space), lit ''import'']"

subsection \<open>Paths\<close>

text \<open>
  A \<open>Path\<close> is absolute and is the list of its components below the root \<open>/\<close>, so
  \<open>[]\<close> is \<open>/\<close> itself. As in \<open>pathlib\<close>, building a path drops empty and \<open>.\<close>
  components and keeps \<open>..\<close>; two paths are equal when their components are.
\<close>

type_synonym path = "string list"

definition parts :: "path \<Rightarrow> string list" where
  "parts p = ''/'' # p"

definition name :: "path \<Rightarrow> string" where
  "name p = (if p = [] then [] else last p)"

definition parent :: "path \<Rightarrow> path" where
  "parent p = butlast p"

text \<open>\<open>s.rfind(c)\<close>, with \<open>None\<close> for Python's \<open>-1\<close>.\<close>

definition rfind :: "char \<Rightarrow> string \<Rightarrow> nat option" where
  "rfind c s =
     (if c \<in> set s then Some (length s - 1 - length (takeWhile (\<lambda>x. x \<noteq> c) (rev s))) else None)"

definition suffix :: "path \<Rightarrow> string" where
  "suffix p =
     (case rfind CHR ''.'' (name p) of
        None \<Rightarrow> []
      | Some i \<Rightarrow> if 0 < i \<and> i < length (name p) - 1 then drop i (name p) else [])"

definition str_path :: "path \<Rightarrow> string" where
  "str_path p = (if p = [] then ''/'' else concat (map (\<lambda>c. ''/'' @ c) p))"

text \<open>\<open>p / s\<close> for a string \<open>s\<close>: an absolute \<open>s\<close> replaces \<open>p\<close>.\<close>

definition components :: "string \<Rightarrow> string list" where
  "components s = filter (\<lambda>c. c \<noteq> [] \<and> c \<noteq> ''.'') (split CHR ''/'' s)"

definition joinpath :: "path \<Rightarrow> string \<Rightarrow> path" where
  "joinpath p s = (if startswith s ''/'' then components s else p @ components s)"

text \<open>\<open>p.relative_to(root)\<close>; \<open>None\<close> stands for the \<open>ValueError\<close> raised when
  \<open>root\<close> is not a prefix of \<open>p\<close>.\<close>

definition relative_to :: "path \<Rightarrow> path \<Rightarrow> path option" where
  "relative_to p root = (if take (length root) p = root then Some (drop (length root) p) else None)"

subsection \<open>The directory tree\<close>

text \<open>
  A regular file holds the lines that iterating over it yields and, possibly, the error
  that ends the reading: a \<open>PermissionError\<close> or \<open>FileNotFoundError\<close> comes from
  \<open>open\<close>, before any line; a \<open>UnicodeDecodeError\<close> may come after some lines have
  been read. A directory holds its entries in the order in which the operating system
  lists them, and a flag saying whether it may be listed. A symbolic link holds the
  canonical path it resolves to, which may or may not exist.

  The exceptions are those of the operating system calls the program makes: the three
  for which the source has handlers, the \<open>IsADirectoryError\<close> of \<open>open\<close> on a
  directory, and the \<open>ValueError\<close> of \<open>resolve\<close> on a path that holds a NUL
  character. The source has a handler for neither of the last two. The names of the
  entries of a tree hold no NUL character, as no file system allows one: only the
  text read from a file can bring one into a path.
\<close>

datatype io_error =
    UnicodeDecodeError | PermissionError | FileNotFoundError | IsADirectoryError | ValueError

datatype node =
    File "string list" "io_error option"
  | Dir bool "(string \<times> node) list"
  | Symlink path

text \<open>\<open>lookup\<close> walks down real directories only (it is \<open>lstat\<close> on a canonical path).\<close>

fun lookup :: "node \<Rightarrow> path \<Rightarrow> node option" where
  "lookup n [] = Some n"
| "lookup n (c # cs) =
     (case n of
        Dir _ es \<Rightarrow> (case map_of es c of None \<Rightarrow> None | Some m \<Rightarrow> lookup m cs)
      | _ \<Rightarrow> None)"

text \<open>\<open>Path.resolve()\<close>. The program requires Python 3.6 or later, where \<open>resolve\<close> is
  not strict by default: it follows the links that exist, removes \<open>..\<close>, keeps the
  components that do not exist as they are, and does not raise \<open>FileNotFoundError\<close>.
  It raises \<open>ValueError\<close> (embedded null byte) when a component holds a NUL character.
  A link of the tree holds its canonical target, so a chain of links that loops, for
  which \<open>resolve\<close> raises \<open>RuntimeError\<close>, is not a tree of this model.\<close>

definition resolve_step :: "node \<Rightarrow> path \<Rightarrow> string \<Rightarrow> path" where
  "resolve_step fs acc c =
     (if c = ''..'' then butlast acc
      else (case lookup fs (acc @ [c]) of Some (Symlink t) \<Rightarrow> t | _ \<Rightarrow> acc @ [c]))"

definition realpath :: "node \<Rightarrow> path \<Rightarrow> path" where
  "realpath fs p = foldl (resolve_step fs) [] p"

definition resolve :: "node \<Rightarrow> path \<Rightarrow> io_error + path" where
  "resolve fs p =
     (if list_ex (\<lambda>c. CHR 0x00 \<in> set c) p then Inl ValueError else Inr (realpath fs p))"

definition is_file :: "node \<Rightarrow> path \<Rightarrow> bool" where
  "is_file fs p = (case lookup fs (realpath fs p) of Some (File _ _) \<Rightarrow> True | _ \<Rightarrow> False)"

definition is_dir :: "node \<Rightarrow> path \<Rightarrow> bool" where
  "is_dir fs p = (case lookup fs (realpath fs p) of Some (Dir _ _) \<Rightarrow> True | _ \<Rightarrow> False)"

definition is_symlink :: "node \<Rightarrow> path \<Rightarrow> bool" where
  "is_symlink fs p =
     (p \<noteq> [] \<and> (case lookup fs (realpath fs (butlast p) @ [last p]) of
                   Some (Symlink _) \<Rightarrow> True | _ \<Rightarrow> False))"

text \<open>\<open>folder.iterdir()\<close>: the children of a directory in listing order, or the error.\<close>

definition iterdir :: "node \<Rightarrow> path \<Rightarrow> io_error + path list" where
  "iterdir fs p =
     (case lookup fs (realpath fs p) of
        Some (Dir True es) \<Rightarrow> Inr (map (\<lambda>e. p @ [fst e]) es)
      | Some (Dir False es) \<Rightarrow> Inl PermissionError
      | _ \<Rightarrow> Inl FileNotFoundError)"

text \<open>\<open>path.open("r", encoding="utf-8")\<close> followed by iteration over the lines: the
  lines read and the exception that ended the reading, if any. \<open>open\<close> follows links;
  on a directory it raises \<open>IsADirectoryError\<close>, on a path that does not exist
  \<open>FileNotFoundError\<close>.\<close>

definition read_lines :: "node \<Rightarrow> path \<Rightarrow> string list \<times> io_error option" where
  "read_lines fs p =
     (case lookup fs (realpath fs p) of
        Some (File ls e) \<Rightarrow> (ls, e)
      | Some (Dir _ _) \<Rightarrow> ([], Some IsADirectoryError)
      | _ \<Rightarrow> ([], Some FileNotFoundError))"

text \<open>
  \<open>os.walk(top, topdown=True)\<close> where the consumer prunes \<open>dirnames\<close> in place to the
  names that satisfy \<open>keep\<close>, as line 177 of the source does. It yields, top-down and
  depth-first, the triple of each directory it can list: its path, the names of its
  entries that are directories (links followed) before pruning, and the other names.
  It descends into the kept directories that are not links.
\<close>

definition entry_is_dir :: "node \<Rightarrow> node \<Rightarrow> bool" where
  "entry_is_dir fs t =
     (case t of Dir _ _ \<Rightarrow> True | File _ _ \<Rightarrow> False | Symlink tgt \<Rightarrow> is_dir fs tgt)"

type_synonym walk_item = "path \<times> string list \<times> string list"

fun walk_node :: "node \<Rightarrow> (string \<Rightarrow> bool) \<Rightarrow> path \<Rightarrow> node \<Rightarrow> walk_item list"
  and walk_entries :: "node \<Rightarrow> (string \<Rightarrow> bool) \<Rightarrow> path \<Rightarrow> (string \<times> node) list \<Rightarrow> walk_item list"
where
  "walk_node fs keep dp (Dir listable es) =
     (if listable
      then (dp, map fst (filter (\<lambda>e. entry_is_dir fs (snd e)) es),
                map fst (filter (\<lambda>e. \<not> entry_is_dir fs (snd e)) es))
           # walk_entries fs keep dp es
      else [])"
| "walk_node fs keep dp (File ls e) = []"
| "walk_node fs keep dp (Symlink t) = []"
| "walk_entries fs keep dp [] = []"
| "walk_entries fs keep dp ((n, t) # es) =
     (case t of
        Dir _ _ \<Rightarrow> (if keep n then walk_node fs keep (dp @ [n]) t else [])
      | _ \<Rightarrow> [])
     @ walk_entries fs keep dp es"

definition os_walk :: "node \<Rightarrow> (string \<Rightarrow> bool) \<Rightarrow> path \<Rightarrow> walk_item list" where
  "os_walk fs keep root =
     (case lookup fs (realpath fs root) of None \<Rightarrow> [] | Some n \<Rightarrow> walk_node fs keep root n)"

subsection \<open>Output\<close>

text \<open>What the program prints, line by line, on standard output and standard error.\<close>

datatype msg = Stdout string | Stderr string

text \<open>The text of an exception in an f-string.\<close>

definition strerror :: "io_error \<Rightarrow> path \<Rightarrow> string" where
  "strerror e p =
     (case e of
        PermissionError \<Rightarrow> ''[Errno 13] Permission denied: '' @ [CHR 0x27] @ str_path p @ [CHR 0x27]
      | FileNotFoundError \<Rightarrow> ''[Errno 2] No such file or directory: '' @ [CHR 0x27] @ str_path p @ [CHR 0x27]
      | IsADirectoryError \<Rightarrow> ''[Errno 21] Is a directory: '' @ [CHR 0x27] @ str_path p @ [CHR 0x27]
      | UnicodeDecodeError \<Rightarrow> ''codec cannot decode''
      | ValueError \<Rightarrow> ''embedded null byte'')"

text \<open>The traceback that the interpreter prints on standard error when an exception
  leaves \<open>main\<close>, shortened to the name of the exception; the process then ends with
  status 1.\<close>

definition traceback :: "io_error \<Rightarrow> string" where
  "traceback e =
     (case e of
        UnicodeDecodeError \<Rightarrow> ''UnicodeDecodeError''
      | PermissionError \<Rightarrow> ''PermissionError''
      | FileNotFoundError \<Rightarrow> ''FileNotFoundError''
      | IsADirectoryError \<Rightarrow> ''IsADirectoryError''
      | ValueError \<Rightarrow> ''ValueError'')"

subsection \<open>Configuration constants\<close>

definition DEFAULT_FILES_OF_INTEREST :: "string list" where
  "DEFAULT_FILES_OF_INTEREST =
     [''*.c'', ''*.h'', ''*.json'', ''*.py'', ''*.cmake'', ''*.md'', ''*.sh'', ''CMakeLists.txt'']"

definition DEFAULT_FOLDERS_TO_EXCLUDE :: "string set" where
  "DEFAULT_FOLDERS_TO_EXCLUDE = {''.git'', ''build'', ''build_logs'', ''doc''}"

definition DEFAULT_ROOT_MARKER_FILES :: "string list" where
  "DEFAULT_ROOT_MARKER_FILES = [''LICENSE'', ''sdkconfig'', ''dependencies.lock'', ''CMakeLists.txt'']"

definition MAX_SEARCH_DEPTH :: nat where
  "MAX_SEARCH_DEPTH = 3"

text \<open>The module-level \<open>VALID_EXTENSIONS\<close> and \<open>VALID_FILENAMES\<close>, which \<open>main\<close>
  rebinds from the arguments, are passed explicitly as a record.\<close>

record interest =
  VALID_EXTENSIONS :: "string set"
  VALID_FILENAMES :: "string set"

definition interest_of :: "string list \<Rightarrow> interest" where
  "interest_of patterns =
     \<lparr> VALID_EXTENSIONS = set (map (drop 1) (filter (\<lambda>pat. startswith pat ''*.'') patterns)),
       VALID_FILENAMES = set (filter (\<lambda>pat. \<not> startswith pat ''*'') patterns) \<rparr>"

subsection \<open>\<open>find_project_root\<close>\<close>

text \<open>\<open>any((path / marker).is_file() for marker in marker_files)\<close>.\<close>

definition has_marker :: "node \<Rightarrow> string list \<Rightarrow> path \<Rightarrow> bool" where
  "has_marker fs marker_files p = list_ex (\<lambda>marker. is_file fs (joinpath p marker)) marker_files"

text \<open>Lines 93 to 98: the loop that collects up to \<open>MAX_SEARCH_DEPTH\<close> parents; the
  parent of \<open>/\<close> is \<open>/\<close>, which \<open>checked\<close> filters out.\<close>

fun collect_up :: "nat \<Rightarrow> path \<Rightarrow> path list \<times> path set \<Rightarrow> path list \<times> path set" where
  "collect_up 0 cur (up_paths, checked) = (up_paths, checked)"
| "collect_up (Suc n) cur (up_paths, checked) =
     (if parent cur \<notin> checked
      then collect_up n (parent cur) (up_paths @ [parent cur], insert (parent cur) checked)
      else collect_up n (parent cur) (up_paths, checked))"

text \<open>The state of the downward search: the directories seen so far, the next level
  under construction and the warnings printed. A search step either returns the root
  it found (with the warnings so far) or goes on with a new state.\<close>

record bfs_state =
  checked :: "path set"
  next_level :: "path list"
  warned :: "msg list"

type_synonym bfs_result = "(path \<times> msg list) + bfs_state"

text \<open>Lines 114 to 120: the loop over the children of one folder.\<close>

fun scan_subs :: "node \<Rightarrow> string list \<Rightarrow> path list \<Rightarrow> bfs_state \<Rightarrow> bfs_result" where
  "scan_subs fs marker_files [] st = Inr st"
| "scan_subs fs marker_files (sub # subs) st =
     (if is_dir fs sub \<and> \<not> is_symlink fs sub \<and> sub \<notin> checked st
      then (if has_marker fs marker_files sub then Inl (sub, warned st)
            else scan_subs fs marker_files subs
                   (st\<lparr>checked := insert sub (checked st), next_level := next_level st @ [sub]\<rparr>))
      else scan_subs fs marker_files subs st)"

text \<open>Lines 113 to 126: one folder of the queue, with its two handlers.\<close>

definition scan_folder :: "node \<Rightarrow> string list \<Rightarrow> bool \<Rightarrow> path \<Rightarrow> bfs_state \<Rightarrow> bfs_result" where
  "scan_folder fs marker_files verbose folder st =
     (case iterdir fs folder of
        Inr subs \<Rightarrow> scan_subs fs marker_files subs st
      | Inl PermissionError \<Rightarrow>
          Inr (if verbose
               then st\<lparr>warned := warned st @
                      [Stderr (''Warning: Permission denied accessing '' @ str_path folder @ '': ''
                               @ strerror PermissionError folder)]\<rparr>
               else st)
      | Inl e \<Rightarrow>
          Inr (if verbose
               then st\<lparr>warned := warned st @
                      [Stderr (''Warning: Error accessing '' @ str_path folder @ '': ''
                               @ strerror e folder)]\<rparr>
               else st))"

text \<open>Line 112: the loop over the queue.\<close>

fun scan_queue :: "node \<Rightarrow> string list \<Rightarrow> bool \<Rightarrow> path list \<Rightarrow> bfs_state \<Rightarrow> bfs_result" where
  "scan_queue fs marker_files verbose [] st = Inr st"
| "scan_queue fs marker_files verbose (folder # queue) st =
     (case scan_folder fs marker_files verbose folder st of
        Inl found \<Rightarrow> Inl found
      | Inr st' \<Rightarrow> scan_queue fs marker_files verbose queue st')"

text \<open>Lines 110 to 128: \<open>while queue and depth < MAX_SEARCH_DEPTH\<close>.\<close>

function bfs_while ::
  "node \<Rightarrow> string list \<Rightarrow> bool \<Rightarrow> path list \<Rightarrow> nat \<Rightarrow> bfs_state \<Rightarrow> bfs_result" where
  "bfs_while fs marker_files verbose queue depth st =
     (if queue \<noteq> [] \<and> depth < MAX_SEARCH_DEPTH
      then (case scan_queue fs marker_files verbose queue (st\<lparr>next_level := []\<rparr>) of
              Inl found \<Rightarrow> Inl found
            | Inr st' \<Rightarrow> bfs_while fs marker_files verbose (next_level st') (depth + 1) st')
      else Inr st)"
  by pat_completeness auto
termination
  by (relation "measure (\<lambda>(fs, ms, v, q, depth, st). MAX_SEARCH_DEPTH - depth)") auto

declare bfs_while.simps [simp del]

text \<open>Line 107: the loop over \<open>up_paths\<close>.\<close>

fun bfs_ups :: "node \<Rightarrow> string list \<Rightarrow> bool \<Rightarrow> path list \<Rightarrow> bfs_state \<Rightarrow> bfs_result" where
  "bfs_ups fs marker_files verbose [] st = Inr st"
| "bfs_ups fs marker_files verbose (up # ups) st =
     (case bfs_while fs marker_files verbose [up] 0 st of
        Inl found \<Rightarrow> Inl found
      | Inr st' \<Rightarrow> bfs_ups fs marker_files verbose ups st')"

definition not_found_message :: string where
  "not_found_message = [CHR 0xE2, CHR 0x9D, CHR 0x8C] @ '' Project root could not be found.''"

text \<open>The function returns the root, or \<open>None\<close>, and what it printed.\<close>

definition find_project_root ::
  "node \<Rightarrow> path \<Rightarrow> string list \<Rightarrow> bool \<Rightarrow> path option \<times> msg list" where
  "find_project_root fs start_path marker_files verbose =
     (let start = realpath fs start_path;
          (up_paths, seen) = collect_up MAX_SEARCH_DEPTH start ([start], {start})
      in case find (has_marker fs marker_files) up_paths of
           Some p \<Rightarrow> (Some p, [Stdout (''Project root found at: '' @ str_path p)])
         | None \<Rightarrow>
             (case bfs_ups fs marker_files verbose up_paths
                     \<lparr>checked = seen, next_level = [], warned = []\<rparr> of
                Inl (sub, ws) \<Rightarrow>
                  (Some sub, ws @ [Stdout (''Project root found at: '' @ str_path sub)])
              | Inr st \<Rightarrow> (None, warned st @ [Stderr not_found_message])))"

subsection \<open>\<open>get_project_name\<close> and \<open>matches_interest_patterns\<close>\<close>

fun first_match :: "rx \<Rightarrow> string list \<Rightarrow> string option" where
  "first_match r [] = None"
| "first_match r (line # lines) =
     (case search r line of Some g \<Rightarrow> Some g | None \<Rightarrow> first_match r lines)"

text \<open>Lines 133 to 153. The result is the name and what was printed, or the exception
  that leaves the function: the handlers of lines 144 to 152 catch
  \<open>FileNotFoundError\<close>, \<open>UnicodeDecodeError\<close> and \<open>PermissionError\<close> and nothing else.\<close>

definition warn :: "bool \<Rightarrow> string \<Rightarrow> msg list" where
  "warn verbose text = (if verbose then [Stderr text] else [])"

definition get_project_name :: "node \<Rightarrow> path \<Rightarrow> bool \<Rightarrow> io_error + (string \<times> msg list)" where
  "get_project_name fs root_path verbose =
     (let cmake_path = joinpath root_path ''CMakeLists.txt'';
          (lines, err) = read_lines fs cmake_path
      in case first_match project_rx lines of
           Some g \<Rightarrow> Inr (g, [])
         | None \<Rightarrow>
             (case err of
                None \<Rightarrow>
                  Inr (''Unknown'',
                       warn verbose (''Warning: Could not parse project name from ''
                                     @ str_path cmake_path))
              | Some FileNotFoundError \<Rightarrow>
                  Inr (''Unknown'',
                       warn verbose (''Warning: CMakeLists.txt not found at ''
                                     @ str_path cmake_path))
              | Some UnicodeDecodeError \<Rightarrow>
                  Inr (''Unknown'',
                       warn verbose (''Warning: Could not decode '' @ str_path cmake_path
                                     @ '' as UTF-8''))
              | Some PermissionError \<Rightarrow>
                  Inr (''Unknown'',
                       warn verbose (''Warning: Permission denied reading ''
                                     @ str_path cmake_path @ '': ''
                                     @ strerror PermissionError cmake_path))
              | Some e \<Rightarrow> Inl e))"

definition matches_interest_patterns :: "interest \<Rightarrow> path \<Rightarrow> bool" where
  "matches_interest_patterns cfg file_path =
     (name file_path \<in> VALID_FILENAMES cfg \<or> suffix file_path \<in> VALID_EXTENSIONS cfg)"

subsection \<open>Dictionaries\<close>

text \<open>A dictionary is the list of its items in insertion order, with distinct keys.
  \<open>dict_add\<close> is \<open>d[k].add(v)\<close> on a \<open>defaultdict(set)\<close>, \<open>dict_append\<close> is
  \<open>d[k].append(v)\<close> on a \<open>defaultdict(list)\<close>, \<open>dict_set\<close> is \<open>d[k] = v\<close>.\<close>

fun dict_add :: "'k \<Rightarrow> 'v \<Rightarrow> ('k \<times> 'v set) list \<Rightarrow> ('k \<times> 'v set) list" where
  "dict_add k v [] = [(k, {v})]"
| "dict_add k v ((k', s) # d) =
     (if k' = k then (k', insert v s) # d else (k', s) # dict_add k v d)"

fun dict_append :: "'k \<Rightarrow> 'v \<Rightarrow> ('k \<times> 'v list) list \<Rightarrow> ('k \<times> 'v list) list" where
  "dict_append k v [] = [(k, [v])]"
| "dict_append k v ((k', xs) # d) =
     (if k' = k then (k', xs @ [v]) # d else (k', xs) # dict_append k v d)"

fun dict_set :: "'k \<Rightarrow> 'v \<Rightarrow> ('k \<times> 'v) list \<Rightarrow> ('k \<times> 'v) list" where
  "dict_set k v [] = [(k, v)]"
| "dict_set k v ((k', w) # d) =
     (if k' = k then (k', v) # d else (k', w) # dict_set k v d)"

definition keys :: "('k \<times> 'v) list \<Rightarrow> 'k list" where
  "keys d = map fst d"

text \<open>Reading \<open>d[k]\<close> from a \<open>defaultdict\<close>: a missing key reads as the empty value.\<close>

definition get_list :: "('k \<times> 'v list) list \<Rightarrow> 'k \<Rightarrow> 'v list" where
  "get_list d k = (case map_of d k of None \<Rightarrow> [] | Some xs \<Rightarrow> xs)"

definition get_set :: "('k \<times> 'v set) list \<Rightarrow> 'k \<Rightarrow> 'v set" where
  "get_set d k = (case map_of d k of None \<Rightarrow> {} | Some s \<Rightarrow> s)"

subsection \<open>\<open>analyze_project_files\<close>\<close>

text \<open>The five results of the function, what it printed, and the exception that is
  on its way out of the function, if any. The source has no statement that runs while
  an exception propagates (no \<open>finally\<close>, and closing the file changes nothing here),
  so once \<open>raised\<close> is set the loops stop and the rest of the state stays as it is.\<close>

record analysis =
  list_exist :: "path list"
  list_referenced :: "(string \<times> path set) list"
  found_files_map :: "(string \<times> path list) list"
  key_subfolders :: "(string \<times> path) list"
  no_go_areas :: "string list"
  printed :: "msg list"
  raised :: "io_error option"

text \<open>A \<open>for\<close> loop whose body may raise: the body runs on each element in turn as long
  as no exception is propagating.\<close>

fun run :: "(analysis \<Rightarrow> 'a \<Rightarrow> analysis) \<Rightarrow> analysis \<Rightarrow> 'a list \<Rightarrow> analysis" where
  "run body st [] = st"
| "run body st (x # xs) = (if raised st = None then run body (body st x) xs else st)"

definition say :: "bool \<Rightarrow> msg \<Rightarrow> analysis \<Rightarrow> analysis" where
  "say verbose m st = (if verbose then st\<lparr>printed := printed st @ [m]\<rparr> else st)"

text \<open>Lines 209 to 215 and 222 to 228: one reference of a C or CMake file, resolved
  against the directory of the referencing file. The handler of the inner \<open>try\<close>
  catches \<open>FileNotFoundError\<close> only.\<close>

definition add_resolved_ref :: "node \<Rightarrow> bool \<Rightarrow> path \<Rightarrow> analysis \<Rightarrow> string \<Rightarrow> analysis" where
  "add_resolved_ref fs verbose file_path st ref =
     (case resolve fs (joinpath (parent file_path) ref) of
        Inr resolved \<Rightarrow>
          st\<lparr>list_referenced := dict_add (name resolved) file_path (list_referenced st)\<rparr>
      | Inl FileNotFoundError \<Rightarrow>
          say verbose (Stderr (''Warning: Reference '' @ ref @ '' in '' @ str_path file_path
                               @ '' not found'')) st
      | Inl e \<Rightarrow> st\<lparr>raised := Some e\<rparr>)"

text \<open>Line 233: one reference of a Python file.\<close>

definition add_import_ref :: "path \<Rightarrow> analysis \<Rightarrow> string \<Rightarrow> analysis" where
  "add_import_ref file_path st ref =
     st\<lparr>list_referenced := dict_add (ref @ ''.py'') file_path (list_referenced st)\<rparr>"

text \<open>Lines 206 to 233: one line of a file. Recording a Python import cannot raise.\<close>

definition process_line :: "node \<Rightarrow> bool \<Rightarrow> path \<Rightarrow> analysis \<Rightarrow> string \<Rightarrow> analysis" where
  "process_line fs verbose file_path st line =
     (if suffix file_path \<in> set [''.c'', ''.h'']
      then run (add_resolved_ref fs verbose file_path) st (findall include_rx line)
      else if endswith (lower (name file_path)) ''.cmake''
              \<or> endswith (lower (name file_path)) ''cmakelists.txt''
      then run (add_resolved_ref fs verbose file_path) st (findall cmake_rx line)
      else if suffix file_path = ''.py''
      then foldl (add_import_ref file_path) st (findall import_rx line)
      else st)"

text \<open>Lines 191 to 242: one file name of a directory. The exception that reaches the
  handlers of lines 234 to 242 is the one raised while a line was processed or, when
  all the lines read were processed, the one that ended the reading. The handlers
  catch \<open>UnicodeDecodeError\<close>, \<open>PermissionError\<close> and \<open>FileNotFoundError\<close>; any other
  exception goes on.\<close>

definition process_file ::
  "node \<Rightarrow> interest \<Rightarrow> bool \<Rightarrow> path \<Rightarrow> analysis \<Rightarrow> string \<Rightarrow> analysis" where
  "process_file fs cfg verbose current_path st filename =
     (let file_path = joinpath current_path filename
      in if is_symlink fs file_path
         then say verbose (Stderr (''Warning: Skipping symlink '' @ str_path file_path)) st
         else
           (let st1 = (if matches_interest_patterns cfg file_path
                       then st\<lparr>list_exist := list_exist st @ [file_path],
                               found_files_map :=
                                 dict_append (name file_path) file_path (found_files_map st)\<rparr>
                       else st);
                (lines, err) = read_lines fs file_path;
                st2 = run (process_line fs verbose file_path) st1 lines;
                caught = st2\<lparr>raised := None\<rparr>
            in case (case raised st2 of Some e \<Rightarrow> Some e | None \<Rightarrow> err) of
                 None \<Rightarrow> st2
               | Some UnicodeDecodeError \<Rightarrow>
                   say verbose (Stderr (''Warning: Could not decode '' @ str_path file_path
                                        @ '' as UTF-8, skipping'')) caught
               | Some PermissionError \<Rightarrow>
                   say verbose (Stderr (''Warning: Permission denied reading '' @ str_path file_path
                                        @ '': '' @ strerror PermissionError file_path)) caught
               | Some FileNotFoundError \<Rightarrow>
                   say verbose (Stderr (''Warning: File '' @ str_path file_path
                                        @ '' not found, skipping'')) caught
               | Some e \<Rightarrow> st2\<lparr>raised := Some e\<rparr>))"

text \<open>\<open>str\<close> of a relative path.\<close>

definition str_rel :: "path \<Rightarrow> string" where
  "str_rel p = (if p = [] then ''.'' else join ''/'' p)"

text \<open>Lines 174 to 242: the body of the loop over \<open>os.walk\<close>. The pruned names are the
  members of \<open>set(original_dirs) - set(dirnames)\<close>; Python iterates over that set in an
  order of its own, here the listing order, and the report sorts the result.
  \<open>relative_to\<close> raises \<open>ValueError\<close> on a directory that is not below the root.\<close>

definition process_dir ::
  "node \<Rightarrow> interest \<Rightarrow> path \<Rightarrow> string set \<Rightarrow> bool \<Rightarrow> analysis \<Rightarrow> walk_item \<Rightarrow> analysis" where
  "process_dir fs cfg root_path exclude_dirs verbose st item =
     (case item of (current_path, original_dirs, filenames) \<Rightarrow>
        (let pruned = filter (\<lambda>d. d \<in> exclude_dirs) (remdups original_dirs);
             st1 = st\<lparr>no_go_areas :=
                        no_go_areas st @ map (\<lambda>d. str_path (joinpath current_path d)) pruned\<rparr>
         in if \<exists>x \<in> exclude_dirs. x \<in> set (parts current_path) then st1
            else
              (let st2 = (if current_path \<noteq> root_path
                          then (case relative_to current_path root_path of
                                  Some rel \<Rightarrow>
                                    st1\<lparr>key_subfolders :=
                                          dict_set (str_rel rel) current_path (key_subfolders st1)\<rparr>
                                | None \<Rightarrow> st1\<lparr>raised := Some ValueError\<rparr>)
                          else st1)
               in run (process_file fs cfg verbose current_path) st2 filenames)))"

definition analyze_project_files ::
  "node \<Rightarrow> interest \<Rightarrow> path \<Rightarrow> string set \<Rightarrow> bool \<Rightarrow> analysis" where
  "analyze_project_files fs cfg root_path exclude_dirs verbose =
     run (process_dir fs cfg root_path exclude_dirs verbose)
       \<lparr>list_exist = [], list_referenced = [], found_files_map = [], key_subfolders = [],
         no_go_areas = [], printed = [Stdout ([CHR 0x0A] @ ''Analyzing project files...'')],
         raised = None\<rparr>
       (os_walk fs (\<lambda>d. d \<notin> exclude_dirs) root_path)"

subsection \<open>\<open>generate_report\<close>\<close>

text \<open>Lines 259 to 262. \<open>sorted(list(A - B))\<close> is the sorted list of the set \<open>A - B\<close>.\<close>

definition exist_set :: "path list \<Rightarrow> string set" where
  "exist_set existing = set (map name existing)"

definition ref_set :: "(string \<times> path set) list \<Rightarrow> string set" where
  "ref_set referenced = set (keys referenced)"

definition orphan_basenames :: "path list \<Rightarrow> (string \<times> path set) list \<Rightarrow> string list" where
  "orphan_basenames existing referenced =
     sorted_list_of_set (exist_set existing - ref_set referenced)"

definition missing_basenames :: "path list \<Rightarrow> (string \<times> path set) list \<Rightarrow> string list" where
  "missing_basenames existing referenced =
     sorted_list_of_set (ref_set referenced - exist_set existing)"

text \<open>\<open>sorted(d.items())\<close> of a dictionary: its items by key.\<close>

definition sorted_items :: "(string \<times> 'v) list \<Rightarrow> (string \<times> 'v) list" where
  "sorted_items d = sort_key fst d"

text \<open>Lines 265 to 279.\<close>

definition summary_section ::
  "string \<Rightarrow> path \<Rightarrow> (string \<times> path) list \<Rightarrow> string list \<Rightarrow> string list" where
  "summary_section project_name root_path subfolders areas =
     [[CHR 0x0A] @ ''=== Summary ==='',
      ''Project name: '' @ project_name,
      ''Project root folder: '' @ str_path root_path,
      ''Key subfolders:'']
     @ (if subfolders \<noteq> []
        then map (\<lambda>(rel, p). ''  - '' @ rel @ '': '' @ str_path p) (sorted_items subfolders)
        else [''  (None)''])
     @ [''Excluded directories:'']
     @ (if areas \<noteq> [] then map (\<lambda>area. ''  - '' @ area) (sort areas) else [''  (None)''])"

text \<open>Lines 282 to 289. \<open>counts.get(ext, 0)\<close> of the \<open>Counter\<close> is the number of paths
  whose lowered suffix is \<open>ext\<close>.\<close>

definition statistics_section :: "path list \<Rightarrow> string list" where
  "statistics_section existing =
     [[CHR 0x0A] @ ''=== Statistics ==='',
      ''Total # of files of interest: '' @ str_nat (length existing)]
     @ map (\<lambda>ext. ''# of '' @ ext @ '': ''
                   @ str_nat (length (filter (\<lambda>p. lower (suffix p) = lower ext) existing)))
           [''.c'', ''.h'', ''.cmake'', ''.sh'', ''.json'', ''.py'', ''.md'']
     @ [''# of CMakeLists.txt: ''
        @ str_nat (length (filter (\<lambda>p. lower (name p) = ''cmakelists.txt'') existing))]"

text \<open>Lines 298 to 300: the lines printed for one duplicated name. The first line shows
  \<open>paths[0]\<close>, the following ones \<open>sorted(paths)[1:]\<close>.\<close>

definition duplicate_lines :: "string \<times> path list \<Rightarrow> string list" where
  "duplicate_lines item =
     (case item of (nm, paths) \<Rightarrow>
        (''  '' @ nm @ '': '' @ str_path (paths ! 0))
        # map (\<lambda>p. ''         '' @ str_path p) (drop 1 (sort paths)))"

text \<open>Lines 294 to 303: the block of one extension class.\<close>

definition duplicates_of :: "string \<Rightarrow> (string \<times> path list) list \<Rightarrow> (string \<times> path list) list" where
  "duplicates_of ext files_map =
     filter (\<lambda>(nm, paths). endswith (lower nm) (lower ext) \<and> length paths > 1)
            (sorted_items files_map)"

definition warnings_block :: "(string \<times> path list) list \<Rightarrow> string \<Rightarrow> string list" where
  "warnings_block files_map ext =
     (ext @ '' files with identical names:'')
     # (if duplicates_of ext files_map = [] then [''  (None)'']
        else concat (map duplicate_lines (duplicates_of ext files_map)))"

definition warnings_section :: "(string \<times> path list) list \<Rightarrow> string list" where
  "warnings_section files_map =
     ([CHR 0x0A] @ ''=== Warnings ==='')
     # concat (map (warnings_block files_map) [''.c'', ''.h'', ''.py'', ''.sh''])"

text \<open>Lines 310 to 312: the paths listed under the orphan details.\<close>

definition orphan_paths ::
  "path list \<Rightarrow> (string \<times> path set) list \<Rightarrow> (string \<times> path list) list \<Rightarrow> path list" where
  "orphan_paths existing referenced files_map =
     concat (map (get_list files_map) (orphan_basenames existing referenced))"

text \<open>Lines 317 to 321: the lines of one missing name.\<close>

definition missing_lines :: "(string \<times> path set) list \<Rightarrow> string \<Rightarrow> string list" where
  "missing_lines referenced nm =
     [[CHR 0x0A] @ ''- '' @ nm, ''  referenced by:'']
     @ map (\<lambda>ref_path. ''    - '' @ str_path ref_path)
           (sorted_list_of_set (get_set referenced nm))"

text \<open>Lines 306 to 321.\<close>

definition errors_section ::
  "path list \<Rightarrow> (string \<times> path set) list \<Rightarrow> (string \<times> path list) list \<Rightarrow> string list" where
  "errors_section existing referenced files_map =
     [[CHR 0x0A] @ ''=== Errors ==='',
      ''# of orphan files: '' @ str_nat (length (orphan_basenames existing referenced))]
     @ (if orphan_basenames existing referenced \<noteq> []
        then ([CHR 0x0A] @ ''Details of Orphan Files:'')
             # map (\<lambda>p. ''- '' @ str_path p) (orphan_paths existing referenced files_map)
        else [])
     @ [[CHR 0x0A] @ ''# of missing files: ''
        @ str_nat (length (missing_basenames existing referenced))]
     @ (if missing_basenames existing referenced \<noteq> []
        then ([CHR 0x0A] @ ''Details of Missing Files:'')
             # concat (map (missing_lines referenced)
                           (missing_basenames existing referenced))
        else [])"

definition generate_report :: "string \<Rightarrow> path \<Rightarrow> analysis \<Rightarrow> msg list" where
  "generate_report project_name root_path a =
     (if list_exist a = [] then [Stderr ''Warning: No files of interest found in project.'']
      else [])
     @ map Stdout
         (summary_section project_name root_path (key_subfolders a) (no_go_areas a)
          @ statistics_section (list_exist a)
          @ warnings_section (found_files_map a)
          @ errors_section (list_exist a) (list_referenced a) (found_files_map a))"

subsection \<open>\<open>main\<close>\<close>

text \<open>The parsed command line.\<close>

record args =
  arg_extensions :: string
  arg_exclude_dirs :: string
  arg_marker_files :: string
  arg_verbose :: bool

definition default_args :: args where
  "default_args =
     \<lparr> arg_extensions = ''c,h,json,py,cmake,md,sh,CMakeLists.txt'',
       arg_exclude_dirs = ''.git,build,build_logs,doc'',
       arg_marker_files = ''LICENSE,sdkconfig,dependencies.lock,CMakeLists.txt'',
       arg_verbose = False \<rparr>"

definition files_of_interest :: "args \<Rightarrow> string list" where
  "files_of_interest a =
     map (\<lambda>ext. if \<not> startswith ext ''CMakeLists'' then ''*.'' @ ext else ext)
         (split CHR '','' (arg_extensions a))"

text \<open>The process: its exit code and what it printed. \<open>cwd\<close> is the working directory,
  \<open>Path(".")\<close>. The status is 1 after \<open>sys.exit(1)\<close> of line 341 and when an exception
  leaves \<open>get_project_name\<close> or \<open>analyze_project_files\<close>, which \<open>main\<close> calls outside
  any \<open>try\<close>: the interpreter then prints the traceback and no report is generated.\<close>

definition main :: "args \<Rightarrow> node \<Rightarrow> path \<Rightarrow> nat \<times> msg list" where
  "main a fs cwd =
     (let cfg = interest_of (files_of_interest a);
          exclude_dirs = set (split CHR '','' (arg_exclude_dirs a));
          marker_files = split CHR '','' (arg_marker_files a);
          start_path = realpath fs cwd;
          (root, out1) = find_project_root fs start_path marker_files (arg_verbose a)
      in case root of
           None \<Rightarrow> (1, out1)
         | Some root_path \<Rightarrow>
             (case get_project_name fs root_path (arg_verbose a) of
                Inl e \<Rightarrow>
                  (1, out1 @ [Stderr (traceback e)])
              | Inr (project_name, out2) \<Rightarrow>
                  (let res = analyze_project_files fs cfg root_path exclude_dirs (arg_verbose a)
                   in case raised res of
                        Some e \<Rightarrow> (1, out1 @ out2 @ printed res @ [Stderr (traceback e)])
                      | None \<Rightarrow>
                          (0, out1 @ out2 @ printed res
                              @ generate_report project_name root_path res))))"

subsection \<open>Example trees\<close>

text \<open>\<open>/build/proj\<close> holds a marker and a C file; the project sits below a directory
  whose name is in the default exclusion set.\<close>

definition tree_under_build :: node where
  "tree_under_build =
     Dir True [(''build'', Dir True [(''proj'', Dir True
       [(''LICENSE'', File [] None), (''main.c'', File [''int main(void);''] None)])])]"

text \<open>\<open>/p\<close> holds a marker and two directories with a header of the same name;
  \<open>/p/a/main.c\<close> includes the header beside it.\<close>

definition tree_two_headers :: node where
  "tree_two_headers =
     Dir True [(''p'', Dir True
       [(''LICENSE'', File [] None),
        (''a'', Dir True
           [(''main.c'', File [''#include '' @ [dquote] @ ''util.h'' @ [dquote]] None),
            (''util.h'', File [] None)]),
        (''b'', Dir True [(''util.h'', File [] None)])])]"

text \<open>\<open>/g\<close> and \<open>/g/m/s\<close> hold a marker; \<open>/g/m\<close> and \<open>/g/m/t\<close> do not.\<close>

definition tree_nested_markers :: node where
  "tree_nested_markers =
     Dir True [(''g'', Dir True
       [(''LICENSE'', File [] None),
        (''m'', Dir True
           [(''s'', Dir True [(''LICENSE'', File [] None)]),
            (''t'', Dir True [(''notes.md'', File [] None)])])])]"

text \<open>\<open>/w\<close> holds no marker.\<close>

definition tree_no_marker :: node where
  "tree_no_marker = Dir True [(''w'', Dir True [(''notes.md'', File [] None)])]"

text \<open>\<open>/w/locked\<close> cannot be listed; the only marker is in \<open>/w/sub/proj\<close>.\<close>

definition tree_locked :: node where
  "tree_locked =
     Dir True [(''w'', Dir True
       [(''locked'', Dir False []),
        (''sub'', Dir True [(''proj'', Dir True [(''LICENSE'', File [] None)])])])]"



text \<open>\<open>/p/app.py\<close> imports \<open>helpers\<close>, \<open>/p/pkg/use.py\<close> imports \<open>pkg.helpers\<close>, and
  \<open>/p/pkg/helpers.py\<close> exists.\<close>

definition tree_imports :: node where
  "tree_imports =
     Dir True [(''p'', Dir True
       [(''LICENSE'', File [] None),
        (''app.py'', File [''from helpers import thing''] None),
        (''pkg'', Dir True
           [(''helpers.py'', File [] None),
            (''use.py'', File [''from pkg.helpers import x''] None)])])]"

text \<open>\<open>/p/app.py\<close> imports \<open>helpers\<close> and the tree has no \<open>helpers.py\<close>.\<close>

definition tree_scenario_d :: node where
  "tree_scenario_d =
     Dir True [(''p'', Dir True
       [(''LICENSE'', File [] None),
        (''app.py'', File [''from helpers import thing''] None)])]"

text \<open>\<open>/p/main.c\<close> includes \<open>foo.h\<close>, which does not exist.\<close>

definition tree_missing_header :: node where
  "tree_missing_header =
     Dir True [(''p'', Dir True
       [(''LICENSE'', File [] None),
        (''main.c'', File [''#include '' @ [dquote] @ ''foo.h'' @ [dquote]] None)])]"

text \<open>\<open>/p/util.c\<close> and \<open>/p/a/util.c\<close>: the walk meets the first one first, the sorted
  order has it last.\<close>

definition tree_two_utils :: node where
  "tree_two_utils =
     Dir True [(''p'', Dir True
       [(''LICENSE'', File [] None),
        (''util.c'', File [] None),
        (''a'', Dir True [(''util.c'', File [] None)])])]"

text \<open>\<open>/p\<close> holds a marker and a directory named \<open>CMakeLists.txt\<close>.\<close>

definition tree_cmake_dir :: node where
  "tree_cmake_dir =
     Dir True [(''p'', Dir True
       [(''LICENSE'', File [] None),
        (''CMakeLists.txt'', Dir True [])])]"

text \<open>\<open>/p/main.c\<close> includes a name that holds a NUL character.\<close>

definition tree_nul_include :: node where
  "tree_nul_include =
     Dir True [(''p'', Dir True
       [(''LICENSE'', File [] None),
        (''main.c'', File [''#include '' @ [dquote] @ [CHR ''a'', CHR 0x00, CHR ''b''] @ [dquote]]
                       None)])]"

subsection \<open>Notions used in the proofs\<close>

text \<open>The part of an analysis that the classifier reads.\<close>

definition catalog_of ::
  "analysis \<Rightarrow> path list \<times> (string \<times> path set) list \<times> (string \<times> path list) list" where
  "catalog_of a = (list_exist a, list_referenced a, found_files_map a)"

text \<open>Every path filed in the catalog is filed under its own name.\<close>

definition names_agree :: "(string \<times> path list) list \<Rightarrow> bool" where
  "names_agree d = (\<forall>item \<in> set d. \<forall>p \<in> set (snd item). name p = fst item)"

text \<open>The part of a search state that steers the search, and a search result without
  its warnings.\<close>

definition core :: "bfs_state \<Rightarrow> path set \<times> path list" where
  "core st = (checked st, next_level st)"

definition outcome :: "bfs_result \<Rightarrow> path + (path set \<times> path list)" where
  "outcome r = map_sum fst core r"

section \<open>Properties\<close>

subsection \<open>The classifier\<close>

text \<open>
  Claim C5. For every catalog and reference table, the orphan basenames (existing minus
  referenced) and the missing basenames (referenced minus existing) that
  \<open>generate_report\<close> computes have no member in common.
\<close>

theorem orphans_missing_disjoint:
  "set (orphan_basenames existing referenced)
     \<inter> set (missing_basenames existing referenced) = {}"
  by (auto simp add: orphan_basenames_def missing_basenames_def exist_set_def ref_set_def)

subsection \<open>The walk stays below its root\<close>

lemma walk_under:
  "item \<in> set (walk_node fs keep dp n) \<Longrightarrow> \<exists>rest. fst item = dp @ rest"
  "item \<in> set (walk_entries fs keep dp es) \<Longrightarrow> \<exists>rest. fst item = dp @ rest"
proof (induction fs keep dp n and fs keep dp es rule: walk_node_walk_entries.induct)
  case (1 fs keep dp listable es)
  then show ?case by (auto split: if_splits)
next
  case (5 fs keep dp n t es)
  then show ?case by (fastforce split: node.splits if_splits)
qed simp_all

lemma os_walk_under:
  "item \<in> set (os_walk fs keep root) \<Longrightarrow> \<exists>rest. fst item = root @ rest"
  by (auto simp add: os_walk_def dest: walk_under(1) split: option.splits)

subsection \<open>A root below an excluded name\<close>

lemma process_dir_skipped:
  assumes "\<exists>x \<in> exclude_dirs. x \<in> set (parts (fst item))"
  shows "catalog_of (process_dir fs cfg root_path exclude_dirs verbose st item) = catalog_of st"
  using assms by (cases item) (simp add: process_dir_def catalog_of_def Let_def)

lemma run_process_dir_skipped:
  assumes "\<forall>item \<in> set items. \<exists>x \<in> exclude_dirs. x \<in> set (parts (fst item))"
  shows "catalog_of (run (process_dir fs cfg root_path exclude_dirs verbose) st items)
           = catalog_of st"
  using assms
proof (induction items arbitrary: st)
  case Nil
  then show ?case by simp
next
  case (Cons item items)
  then show ?case by (simp add: process_dir_skipped)
qed

text \<open>
  Claim C9. The excluded-name check of the catalog pass reads every component of the
  directory's absolute path, the components of the root included: when a component of
  the root path is in the exclusion set, the check holds in every directory of the
  walk, no file is processed, and the catalog (\<open>list_exist\<close>, \<open>found_files_map\<close>) and
  the reference table (\<open>list_referenced\<close>) are empty.
\<close>

theorem excluded_root_yields_empty_scan:
  assumes "\<exists>x \<in> exclude_dirs. x \<in> set (parts root_path)"
  shows "list_exist (analyze_project_files fs cfg root_path exclude_dirs verbose) = []
       \<and> list_referenced (analyze_project_files fs cfg root_path exclude_dirs verbose) = []
       \<and> found_files_map (analyze_project_files fs cfg root_path exclude_dirs verbose) = []"
proof -
  have "\<forall>item \<in> set (os_walk fs (\<lambda>d. d \<notin> exclude_dirs) root_path).
          \<exists>x \<in> exclude_dirs. x \<in> set (parts (fst item))"
  proof
    fix item assume "item \<in> set (os_walk fs (\<lambda>d. d \<notin> exclude_dirs) root_path)"
    then obtain rest where "fst item = root_path @ rest" using os_walk_under by blast
    with assms show "\<exists>x \<in> exclude_dirs. x \<in> set (parts (fst item))"
      by (auto simp add: parts_def)
  qed
  then have "catalog_of (analyze_project_files fs cfg root_path exclude_dirs verbose)
               = ([], [], [])"
    unfolding analyze_project_files_def
    by (simp add: run_process_dir_skipped) (simp add: catalog_of_def)
  then show ?thesis by (simp add: catalog_of_def)
qed

theorem excluded_root_yields_empty_scan_witness:
  "(\<exists>x \<in> DEFAULT_FOLDERS_TO_EXCLUDE. x \<in> set (parts [''build'', ''proj'']))
   \<and> list_exist (analyze_project_files tree_under_build (interest_of DEFAULT_FILES_OF_INTEREST)
                   [''build'', ''proj''] DEFAULT_FOLDERS_TO_EXCLUDE False) = []
   \<and> list_referenced (analyze_project_files tree_under_build (interest_of DEFAULT_FILES_OF_INTEREST)
                   [''build'', ''proj''] DEFAULT_FOLDERS_TO_EXCLUDE False) = []
   \<and> found_files_map (analyze_project_files tree_under_build (interest_of DEFAULT_FILES_OF_INTEREST)
                   [''build'', ''proj''] DEFAULT_FOLDERS_TO_EXCLUDE False) = []"
proof -
  have h: "\<exists>x \<in> DEFAULT_FOLDERS_TO_EXCLUDE. x \<in> set (parts [''build'', ''proj''])"
    by (simp add: DEFAULT_FOLDERS_TO_EXCLUDE_def parts_def)
  from excluded_root_yields_empty_scan [OF h] h show ?thesis by blast
qed

subsection \<open>The catalog files every path under its own name\<close>

lemma dict_append_agree:
  "names_agree d \<Longrightarrow> name v = k \<Longrightarrow> names_agree (dict_append k v d)"
  by (induction d) (auto simp add: names_agree_def split: if_splits)

lemma say_files [simp]: "found_files_map (say verbose m st) = found_files_map st"
  by (simp add: say_def)

lemma add_resolved_ref_files [simp]:
  "found_files_map (add_resolved_ref fs verbose file_path st ref) = found_files_map st"
  by (simp add: add_resolved_ref_def split: sum.splits io_error.splits)

lemma add_import_ref_files [simp]:
  "found_files_map (add_import_ref file_path st ref) = found_files_map st"
  by (simp add: add_import_ref_def)

lemma foldl_keeps:
  assumes "\<And>st x. g (f st x) = g st"
  shows "g (foldl f st xs) = g st"
  using assms by (induction xs arbitrary: st) simp_all

lemma foldl_inv:
  assumes "P st" and "\<And>st x. P st \<Longrightarrow> P (f st x)"
  shows "P (foldl f st xs)"
  using assms by (induction xs arbitrary: st) simp_all

lemma run_keeps:
  assumes "\<And>st x. g (body st x) = g st"
  shows "g (run body st xs) = g st"
  using assms by (induction xs arbitrary: st) simp_all

lemma run_inv:
  assumes "P st" and "\<And>st x. P st \<Longrightarrow> P (body st x)"
  shows "P (run body st xs)"
  using assms by (induction xs arbitrary: st) simp_all


lemma process_line_files [simp]:
  "found_files_map (process_line fs verbose file_path st line) = found_files_map st"
  by (simp add: process_line_def foldl_keeps run_keeps)

lemma process_file_agree:
  assumes "names_agree (found_files_map st)"
  shows "names_agree (found_files_map (process_file fs cfg verbose current_path st filename))"
  using assms
  by (simp add: process_file_def Let_def run_keeps dict_append_agree
           split: prod.splits option.splits io_error.splits)

lemma process_dir_agree:
  assumes "names_agree (found_files_map st)"
  shows "names_agree (found_files_map (process_dir fs cfg root_path exclude_dirs verbose st item))"
proof -
  obtain current_path original_dirs filenames
    where item: "item = (current_path, original_dirs, filenames)"
    by (cases item)
  have "names_agree (found_files_map (run (process_file fs cfg verbose current_path) st' filenames))"
    if "names_agree (found_files_map st')" for st'
    using that
    by (rule run_inv [where P = "\<lambda>s. names_agree (found_files_map s)"])
       (rule process_file_agree)
  with assms show ?thesis
    by (simp add: item process_dir_def Let_def split: option.splits)
qed

lemma analyze_agree:
  "names_agree (found_files_map (analyze_project_files fs cfg root_path exclude_dirs verbose))"
  unfolding analyze_project_files_def
  by (rule run_inv [where P = "\<lambda>s. names_agree (found_files_map s)"])
     (simp_all add: names_agree_def process_dir_agree [unfolded names_agree_def])

lemma get_list_agree:
  assumes "names_agree d" and "p \<in> set (get_list d k)"
  shows "name p = k"
proof -
  from assms(2) obtain ps where "map_of d k = Some ps" and "p \<in> set ps"
    by (cases "map_of d k") (auto simp add: get_list_def)
  then have "(k, ps) \<in> set d" by (simp add: map_of_SomeD)
  with assms(1) \<open>p \<in> set ps\<close> show ?thesis by (auto simp add: names_agree_def)
qed

text \<open>
  Claim C10. Orphans are classified by basename alone: when the scan has extracted a
  reference to the basename \<open>b\<close> from any file, no path whose name is \<open>b\<close> is listed
  under the orphan details, in whatever directory it lies and whether or not that
  copy was the one referred to.
\<close>

theorem referenced_name_never_orphan:
  assumes "b \<in> set (keys (list_referenced
                            (analyze_project_files fs cfg root_path exclude_dirs verbose)))"
  shows "\<forall>p \<in> set (orphan_paths
                    (list_exist (analyze_project_files fs cfg root_path exclude_dirs verbose))
                    (list_referenced (analyze_project_files fs cfg root_path exclude_dirs verbose))
                    (found_files_map (analyze_project_files fs cfg root_path exclude_dirs verbose))).
           name p \<noteq> b"
proof
  let ?a = "analyze_project_files fs cfg root_path exclude_dirs verbose"
  fix p assume "p \<in> set (orphan_paths (list_exist ?a) (list_referenced ?a) (found_files_map ?a))"
  then obtain n where n: "n \<in> set (orphan_basenames (list_exist ?a) (list_referenced ?a))"
    and p: "p \<in> set (get_list (found_files_map ?a) n)"
    by (auto simp add: orphan_paths_def)
  from n have "n \<notin> set (keys (list_referenced ?a))"
    by (simp add: orphan_basenames_def exist_set_def ref_set_def)
  moreover from p have "name p = n" using analyze_agree get_list_agree by blast
  ultimately show "name p \<noteq> b" using assms by auto
qed

theorem referenced_name_never_orphan_witness:
  "''util.h'' \<in> set (keys (list_referenced
       (analyze_project_files tree_two_headers (interest_of DEFAULT_FILES_OF_INTEREST)
          [''p''] DEFAULT_FOLDERS_TO_EXCLUDE False)))
   \<and> [''p'', ''b'', ''util.h''] \<in> set (list_exist
       (analyze_project_files tree_two_headers (interest_of DEFAULT_FILES_OF_INTEREST)
          [''p''] DEFAULT_FOLDERS_TO_EXCLUDE False))
   \<and> [''p'', ''b'', ''util.h''] \<notin> set (orphan_paths
       (list_exist (analyze_project_files tree_two_headers
          (interest_of DEFAULT_FILES_OF_INTEREST) [''p''] DEFAULT_FOLDERS_TO_EXCLUDE False))
       (list_referenced (analyze_project_files tree_two_headers
          (interest_of DEFAULT_FILES_OF_INTEREST) [''p''] DEFAULT_FOLDERS_TO_EXCLUDE False))
       (found_files_map (analyze_project_files tree_two_headers
          (interest_of DEFAULT_FILES_OF_INTEREST) [''p''] DEFAULT_FOLDERS_TO_EXCLUDE False)))"
proof -
  let ?a = "analyze_project_files tree_two_headers (interest_of DEFAULT_FILES_OF_INTEREST)
              [''p''] DEFAULT_FOLDERS_TO_EXCLUDE False"
  have h: "''util.h'' \<in> set (keys (list_referenced ?a))"
    by code_simp
  have e: "[''p'', ''b'', ''util.h''] \<in> set (list_exist ?a)"
    by code_simp
  have "name [''p'', ''b'', ''util.h''] = ''util.h''"
    by (simp add: name_def)
  with referenced_name_never_orphan [OF h]
  have "[''p'', ''b'', ''util.h'']
          \<notin> set (orphan_paths (list_exist ?a) (list_referenced ?a) (found_files_map ?a))"
    by blast
  with h e show ?thesis by blast
qed

subsection \<open>The upward search\<close>

lemma find_append_skip:
  "\<not> P x \<Longrightarrow> find P (xs @ x # ys) = find P (xs @ ys)"
  by (induction xs) simp_all

lemma find_append_seen:
  "x \<in> set xs \<Longrightarrow> find P (xs @ x # ys) = find P (xs @ ys)"
proof (induction xs)
  case Nil
  then show ?case by simp
next
  case (Cons a xs)
  show ?case
  proof (cases "P a")
    case True
    then show ?thesis by simp
  next
    case False
    with Cons show ?thesis by (auto simp add: find_append_skip)
  qed
qed

lemma map_funpow_shift:
  "map (\<lambda>k. (f ^^ k) x) [0..<Suc n] = x # map (\<lambda>k. (f ^^ k) (f x)) [0..<n]"
proof -
  have "map (\<lambda>k. (f ^^ k) x) [0..<Suc n] = (f ^^ 0) x # map (\<lambda>k. (f ^^ Suc k) x) [0..<n]"
    by (simp only: map_upt_Suc)
  also have "\<dots> = x # map (\<lambda>k. (f ^^ k) (f x)) [0..<n]"
    by (simp add: funpow_swap1)
  finally show ?thesis .
qed

lemma find_collect_up:
  "find P (fst (collect_up n cur (ups, set ups)))
     = find P (ups @ map (\<lambda>k. (parent ^^ k) (parent cur)) [0..<n])"
proof (induction n arbitrary: cur ups)
  case 0
  then show ?case by simp
next
  case (Suc n)
  show ?case
  proof (cases "parent cur \<in> set ups")
    case True
    then have "find P (fst (collect_up (Suc n) cur (ups, set ups)))
                 = find P (ups @ map (\<lambda>k. (parent ^^ k) (parent (parent cur))) [0..<n])"
      using Suc.IH [of "parent cur" ups] by simp
    also have "\<dots> = find P (ups @ parent cur # map (\<lambda>k. (parent ^^ k) (parent (parent cur))) [0..<n])"
      using True by (simp only: find_append_seen)
    finally show ?thesis by (simp only: map_funpow_shift)
  next
    case False
    then have "find P (fst (collect_up (Suc n) cur (ups, set ups)))
                 = find P ((ups @ [parent cur]) @ map (\<lambda>k. (parent ^^ k) (parent (parent cur))) [0..<n])"
      using Suc.IH [of "parent cur" "ups @ [parent cur]"] by simp
    then show ?thesis by (simp only: map_funpow_shift append_assoc append_Cons append_Nil)
  qed
qed

lemma find_first_index:
  assumes "i < length xs" and "P (xs ! i)" and "\<forall>j<i. \<not> P (xs ! j)"
  shows "find P xs = Some (xs ! i)"
  using assms by (auto simp add: find_Some_iff)

text \<open>
  Claim C6. The root locator checks the start directory and then each parent outward,
  up to \<open>MAX_SEARCH_DEPTH\<close> parents, and returns the nearest of them that holds a
  marker, printing nothing but the line that announces it: no downward search has run.
  With \<open>i = 0\<close>: a start directory that holds a marker is returned whatever its
  ancestors hold.
\<close>

theorem nearest_ancestor_first:
  assumes "i \<le> MAX_SEARCH_DEPTH"
    and "has_marker fs marker_files ((parent ^^ i) (realpath fs start_path))"
    and "\<forall>j<i. \<not> has_marker fs marker_files ((parent ^^ j) (realpath fs start_path))"
  shows "find_project_root fs start_path marker_files verbose
           = (Some ((parent ^^ i) (realpath fs start_path)),
              [Stdout (''Project root found at: ''
                       @ str_path ((parent ^^ i) (realpath fs start_path)))])"
proof -
  let ?s = "realpath fs start_path"
  let ?anc = "map (\<lambda>k. (parent ^^ k) ?s) [0..<Suc MAX_SEARCH_DEPTH]"
  obtain ups seen where c: "collect_up MAX_SEARCH_DEPTH ?s ([?s], {?s}) = (ups, seen)"
    by (cases "collect_up MAX_SEARCH_DEPTH ?s ([?s], {?s})")
  have "find (has_marker fs marker_files) ups = find (has_marker fs marker_files) ?anc"
    using find_collect_up [of "has_marker fs marker_files" MAX_SEARCH_DEPTH ?s "[?s]"] c
    by (simp only: map_funpow_shift) simp
  also have "\<dots> = Some (?anc ! i)"
  proof (rule find_first_index)
    show "i < length ?anc" using assms(1) by simp
    show "has_marker fs marker_files (?anc ! i)" using assms(1,2) by (simp del: upt_Suc)
    show "\<forall>j<i. \<not> has_marker fs marker_files (?anc ! j)" using assms(1,3) by (simp del: upt_Suc)
  qed
  also have "?anc ! i = (parent ^^ i) ?s" using assms(1) by (simp del: upt_Suc)
  finally show ?thesis
    by (simp add: find_project_root_def Let_def c)
qed

theorem nearest_ancestor_first_witness:
  "has_marker tree_nested_markers DEFAULT_ROOT_MARKER_FILES [''g'', ''m'', ''s'']
   \<and> has_marker tree_nested_markers DEFAULT_ROOT_MARKER_FILES [''g'']
   \<and> find_project_root tree_nested_markers [''g'', ''m'', ''s''] DEFAULT_ROOT_MARKER_FILES True
       = (Some [''g'', ''m'', ''s''], [Stdout ''Project root found at: /g/m/s''])
   \<and> \<not> has_marker tree_nested_markers DEFAULT_ROOT_MARKER_FILES [''g'', ''m'', ''t'']
   \<and> \<not> has_marker tree_nested_markers DEFAULT_ROOT_MARKER_FILES [''g'', ''m'']
   \<and> find_project_root tree_nested_markers [''g'', ''m'', ''t''] DEFAULT_ROOT_MARKER_FILES True
       = (Some [''g''], [Stdout ''Project root found at: /g''])"
proof -
  let ?has = "has_marker tree_nested_markers DEFAULT_ROOT_MARKER_FILES"
  have s: "realpath tree_nested_markers [''g'', ''m'', ''s''] = [''g'', ''m'', ''s'']"
    by code_simp
  have t: "realpath tree_nested_markers [''g'', ''m'', ''t''] = [''g'', ''m'', ''t'']"
    by code_simp
  have hs: "?has [''g'', ''m'', ''s'']" by code_simp
  have hg: "?has [''g'']" by code_simp
  have ht: "\<not> ?has [''g'', ''m'', ''t'']" by code_simp
  have hm: "\<not> ?has [''g'', ''m'']" by code_simp
  have p2: "(parent ^^ 2) [''g'', ''m'', ''t''] = [''g'']"
    by (simp add: parent_def eval_nat_numeral)
  have below: "\<forall>j<2. \<not> ?has ((parent ^^ j) (realpath tree_nested_markers [''g'', ''m'', ''t'']))"
    using ht hm by (simp add: t less_Suc_eq eval_nat_numeral parent_def)
  have "find_project_root tree_nested_markers [''g'', ''m'', ''s''] DEFAULT_ROOT_MARKER_FILES True
          = (Some [''g'', ''m'', ''s''], [Stdout ''Project root found at: /g/m/s''])"
    using nearest_ancestor_first [of 0 tree_nested_markers DEFAULT_ROOT_MARKER_FILES
            "[''g'', ''m'', ''s'']" True] hs
    by (simp add: s str_path_def)
  moreover
  have "find_project_root tree_nested_markers [''g'', ''m'', ''t''] DEFAULT_ROOT_MARKER_FILES True
          = (Some [''g''], [Stdout ''Project root found at: /g''])"
    using nearest_ancestor_first [of 2 tree_nested_markers DEFAULT_ROOT_MARKER_FILES
            "[''g'', ''m'', ''t'']" True] hg below
    by (simp add: t p2 str_path_def MAX_SEARCH_DEPTH_def)
  ultimately show ?thesis using hs hg ht hm by blast
qed

subsection \<open>The exit code\<close>

text \<open>The status of the process is 0 or 1. It is 0 when a root is located and no
  exception leaves \<open>get_project_name\<close> or \<open>analyze_project_files\<close>: what the report
  finds does not enter the status.\<close>

lemma main_exit_status:
  "fst (main a fs cwd) =
     (case fst (find_project_root fs (realpath fs cwd) (split CHR '','' (arg_marker_files a))
                  (arg_verbose a)) of
        None \<Rightarrow> 1
      | Some root_path \<Rightarrow>
          (case get_project_name fs root_path (arg_verbose a) of
             Inl e \<Rightarrow> 1
           | Inr named \<Rightarrow>
               (case raised (analyze_project_files fs (interest_of (files_of_interest a))
                               root_path (set (split CHR '','' (arg_exclude_dirs a)))
                               (arg_verbose a)) of
                  Some e \<Rightarrow> 1
                | None \<Rightarrow> 0)))"
  by (auto simp add: main_def Let_def split: prod.splits option.splits sum.splits)

text \<open>
  Claim C7 says that the process exits with code 1 exactly when the project root cannot
  be located. In \<open>/p\<close>, which holds \<open>LICENSE\<close> and a directory named
  \<open>CMakeLists.txt\<close>, the root is located at \<open>/p\<close>; \<open>open\<close> raises
  \<open>IsADirectoryError\<close>, for which \<open>get_project_name\<close> has no handler beside the three
  of lines 144 to 152, and the process ends with status 1 and without a report. The
  same happens when an include directive holds a NUL character: \<open>resolve\<close> raises
  \<open>ValueError\<close>, which neither the handler of line 213 nor those of lines 234 to 242
  catch.
\<close>

theorem uncaught_exception_exits_1:
  "fst (find_project_root tree_cmake_dir (realpath tree_cmake_dir [''p''])
          (split CHR '','' (arg_marker_files default_args)) (arg_verbose default_args))
     = Some [''p'']
   \<and> is_dir tree_cmake_dir [''p'', ''CMakeLists.txt'']
   \<and> get_project_name tree_cmake_dir [''p''] (arg_verbose default_args) = Inl IsADirectoryError
   \<and> main default_args tree_cmake_dir [''p'']
     = (1, [Stdout ''Project root found at: /p'', Stderr ''IsADirectoryError''])
   \<and> fst (find_project_root tree_nul_include (realpath tree_nul_include [''p''])
          (split CHR '','' (arg_marker_files default_args)) (arg_verbose default_args))
     = Some [''p'']
   \<and> raised (analyze_project_files tree_nul_include
               (interest_of (files_of_interest default_args)) [''p'']
               (set (split CHR '','' (arg_exclude_dirs default_args)))
               (arg_verbose default_args))
     = Some ValueError
   \<and> fst (main default_args tree_nul_include [''p'']) = 1"
proof (intro conjI)
qed code_simp+

subsection \<open>The root does not depend on what is printed\<close>

lemma scan_subs_outcome:
  "core st = core st' \<Longrightarrow>
     outcome (scan_subs fs ms subs st) = outcome (scan_subs fs ms subs st')"
proof (induction subs arbitrary: st st')
  case Nil
  then show ?case by (simp add: outcome_def)
next
  case (Cons sub subs)
  from Cons.prems have eq: "checked st' = checked st" "next_level st' = next_level st"
    by (simp_all add: core_def)
  show ?case
  proof (cases "is_dir fs sub \<and> \<not> is_symlink fs sub \<and> sub \<notin> checked st")
    case False
    have "outcome (scan_subs fs ms subs st) = outcome (scan_subs fs ms subs st')"
      using Cons.prems by (rule Cons.IH)
    with False show ?thesis by (auto simp add: eq)
  next
    case new: True
    show ?thesis
    proof (cases "has_marker fs ms sub")
      case True
      with new show ?thesis by (simp add: eq outcome_def)
    next
      case False
      let ?upd = "\<lambda>s. s\<lparr>checked := insert sub (checked s), next_level := next_level s @ [sub]\<rparr>"
      have "core (?upd st) = core (?upd st')"
        by (simp add: core_def eq)
      then have "outcome (scan_subs fs ms subs (?upd st)) = outcome (scan_subs fs ms subs (?upd st'))"
        by (rule Cons.IH)
      with new False show ?thesis by (simp add: eq)
    qed
  qed
qed

lemma scan_folder_outcome:
  assumes "core st = core st'"
  shows "outcome (scan_folder fs ms v folder st) = outcome (scan_folder fs ms v' folder st')"
proof (cases "iterdir fs folder")
  case (Inl e)
  with assms show ?thesis
    by (cases e) (simp_all add: scan_folder_def outcome_def core_def)
next
  case (Inr subs)
  with scan_subs_outcome [OF assms, of fs ms subs] show ?thesis
    by (simp add: scan_folder_def)
qed

lemma outcome_cases:
  assumes "outcome r = outcome r'"
  obtains p ws ws' where "r = Inl (p, ws)" and "r' = Inl (p, ws')"
  | st st' where "r = Inr st" and "r' = Inr st'" and "core st = core st'"
  using assms by (cases r; cases r') (auto simp add: outcome_def)

lemma scan_queue_outcome:
  "core st = core st' \<Longrightarrow>
     outcome (scan_queue fs ms v queue st) = outcome (scan_queue fs ms v' queue st')"
proof (induction queue arbitrary: st st')
  case Nil
  then show ?case by (simp add: outcome_def)
next
  case (Cons folder queue)
  from scan_folder_outcome [OF Cons.prems, of fs ms v folder v']
  show ?case
  proof (cases rule: outcome_cases)
    case (1 p ws ws')
    then show ?thesis by (simp add: outcome_def)
  next
    case (2 s s')
    have "outcome (scan_queue fs ms v queue s) = outcome (scan_queue fs ms v' queue s')"
      using 2(3) by (rule Cons.IH)
    with 2 show ?thesis by simp
  qed
qed

lemma bfs_while_stop:
  assumes "queue = [] \<or> \<not> depth < MAX_SEARCH_DEPTH"
  shows "bfs_while fs ms v queue depth st = Inr st"
  by (subst bfs_while.simps) (use assms in auto)

lemma bfs_while_step:
  assumes "queue \<noteq> []" and "depth < MAX_SEARCH_DEPTH"
  shows "bfs_while fs ms v queue depth st =
     (case scan_queue fs ms v queue (st\<lparr>next_level := []\<rparr>) of
        Inl found \<Rightarrow> Inl found
      | Inr st' \<Rightarrow> bfs_while fs ms v (next_level st') (depth + 1) st')"
  by (subst bfs_while.simps) (use assms in simp)

lemma bfs_while_outcome:
  "core st = core st' \<Longrightarrow>
     outcome (bfs_while fs ms v queue depth st) = outcome (bfs_while fs ms v' queue depth st')"
proof (induction fs ms v queue depth st arbitrary: st' rule: bfs_while.induct)
  case (1 fs ms v queue depth st)
  show ?case
  proof (cases "queue \<noteq> [] \<and> depth < MAX_SEARCH_DEPTH")
    case False
    then have stop: "queue = [] \<or> \<not> depth < MAX_SEARCH_DEPTH" by blast
    show ?thesis
      using "1.prems" by (simp only: bfs_while_stop [OF stop]) (simp add: outcome_def)
  next
    case True
    then have q: "queue \<noteq> []" and d: "depth < MAX_SEARCH_DEPTH" by blast+
    have "core (st\<lparr>next_level := []\<rparr>) = core (st'\<lparr>next_level := []\<rparr>)"
      using "1.prems" by (simp add: core_def)
    from scan_queue_outcome [OF this, of fs ms v queue v']
    show ?thesis
    proof (cases rule: outcome_cases)
      case (1 p ws ws')
      then show ?thesis
        by (simp only: bfs_while_step [OF q d]) (simp add: outcome_def)
    next
      case (2 s s')
      then have nl: "next_level s' = next_level s" by (simp add: core_def)
      have "outcome (bfs_while fs ms v (next_level s) (depth + 1) s)
              = outcome (bfs_while fs ms v' (next_level s) (depth + 1) s')"
        using "1.IH" [OF True 2(1) 2(3)] .
      then show ?thesis
        by (simp only: bfs_while_step [OF q d] 2(1) 2(2) nl sum.case)
    qed
  qed
qed

lemma bfs_ups_outcome:
  "core st = core st' \<Longrightarrow>
     outcome (bfs_ups fs ms v ups st) = outcome (bfs_ups fs ms v' ups st')"
proof (induction ups arbitrary: st st')
  case Nil
  then show ?case by (simp add: outcome_def)
next
  case (Cons up ups)
  from bfs_while_outcome [OF Cons.prems, of fs ms v "[up]" 0 v']
  show ?case
  proof (cases rule: outcome_cases)
    case (1 p ws ws')
    then show ?thesis by (simp add: outcome_def)
  next
    case (2 s s')
    have "outcome (bfs_ups fs ms v ups s) = outcome (bfs_ups fs ms v' ups s')"
      using 2(3) by (rule Cons.IH)
    with 2 show ?thesis by simp
  qed
qed

text \<open>
  Claim C8. The root locator is deterministic: its result is a function of the tree,
  the marker files and the start directory. The only other input of a run, the
  \<open>verbose\<close> flag, changes what is printed and never the root, so any two runs on the
  same tree, markers and start directory return the same root.
\<close>

theorem find_project_root_deterministic:
  "fst (find_project_root fs start_path marker_files verbose)
     = fst (find_project_root fs start_path marker_files verbose')"
proof -
  let ?s = "realpath fs start_path"
  obtain ups seen where c: "collect_up MAX_SEARCH_DEPTH ?s ([?s], {?s}) = (ups, seen)"
    by (cases "collect_up MAX_SEARCH_DEPTH ?s ([?s], {?s})")
  let ?st = "\<lparr>checked = seen, next_level = [], warned = []\<rparr>"
  have "outcome (bfs_ups fs marker_files verbose ups ?st)
          = outcome (bfs_ups fs marker_files verbose' ups ?st)"
    by (rule bfs_ups_outcome) simp
  then show ?thesis
  proof (cases rule: outcome_cases)
    case (1 p ws ws')
    then show ?thesis
      by (simp add: find_project_root_def Let_def c split: option.splits)
  next
    case (2 s s')
    then show ?thesis
      by (simp add: find_project_root_def Let_def c split: option.splits)
  qed
qed

theorem find_project_root_deterministic_witness:
  "fst (find_project_root tree_locked [''w''] DEFAULT_ROOT_MARKER_FILES True)
     = Some [''w'', ''sub'', ''proj'']
   \<and> fst (find_project_root tree_locked [''w''] DEFAULT_ROOT_MARKER_FILES False)
     = Some [''w'', ''sub'', ''proj'']
   \<and> length (snd (find_project_root tree_locked [''w''] DEFAULT_ROOT_MARKER_FILES True)) = 2
   \<and> length (snd (find_project_root tree_locked [''w''] DEFAULT_ROOT_MARKER_FILES False)) = 1"
proof -
  have quiet: "fst (find_project_root tree_locked [''w''] DEFAULT_ROOT_MARKER_FILES False)
                 = Some [''w'', ''sub'', ''proj'']"
    by code_simp
  have l2: "length (snd (find_project_root tree_locked [''w''] DEFAULT_ROOT_MARKER_FILES True)) = 2"
    by code_simp
  have l1: "length (snd (find_project_root tree_locked [''w''] DEFAULT_ROOT_MARKER_FILES False)) = 1"
    by code_simp
  from find_project_root_deterministic
         [of tree_locked "[''w'']" DEFAULT_ROOT_MARKER_FILES True False] quiet
  have "fst (find_project_root tree_locked [''w''] DEFAULT_ROOT_MARKER_FILES True)
          = Some [''w'', ''sub'', ''proj'']"
    by simp
  with quiet l2 l1 show ?thesis by blast
qed

subsection \<open>Where the exclusion set is used\<close>



lemma say_areas [simp]: "no_go_areas (say verbose m st) = no_go_areas st"
  by (simp add: say_def)

lemma add_resolved_ref_areas [simp]:
  "no_go_areas (add_resolved_ref fs verbose file_path st ref) = no_go_areas st"
  by (simp add: add_resolved_ref_def split: sum.splits io_error.splits)

lemma add_import_ref_areas [simp]:
  "no_go_areas (add_import_ref file_path st ref) = no_go_areas st"
  by (simp add: add_import_ref_def)

lemma process_line_areas [simp]:
  "no_go_areas (process_line fs verbose file_path st line) = no_go_areas st"
  by (simp add: process_line_def foldl_keeps run_keeps)

lemma process_file_areas [simp]:
  "no_go_areas (process_file fs cfg verbose current_path st filename) = no_go_areas st"
  by (simp add: process_file_def Let_def run_keeps
           split: prod.splits option.splits io_error.splits)










subsection \<open>What the import pattern matches\<close>

text \<open>A greedy repetition of a character class, followed by a pattern that cannot start
  with a character of the class, has one way to match: the longest.\<close>

lemma star_greedy_then:
  assumes "\<forall>c \<in> set xs. P c"
    and "ys = [] \<or> \<not> P (hd ys)"
    and "\<And>pv' z zs. P z \<Longrightarrow> k (pv', z # zs, g) = []"
    and "length xs \<le> n"
  shows "concat (map k (star_greedy (rmatch (Chr P)) n (pv, xs @ ys, g)))
           = k (if xs = [] then pv else Some (last xs), ys, g)"
  using assms(1,4)
proof (induction xs arbitrary: pv n)
  case Nil
  have none: "rmatch (Chr P) (pv, ys, g) = []"
    using assms(2) by (cases ys) simp_all
  show ?case
  proof (cases n)
    case 0
    then show ?thesis by simp
  next
    case (Suc m)
    then show ?thesis by (simp add: none del: rmatch.simps)
  qed
next
  case (Cons x xs)
  from Cons.prems obtain m where n: "n = Suc m" and m: "length xs \<le> m"
    by (cases n) auto
  from Cons.prems have x: "P x" and xs: "\<forall>c \<in> set xs. P c" by simp_all
  have step: "rmatch (Chr P) (pv, x # xs @ ys, g) = [(Some x, xs @ ys, g)]"
    using x by simp
  have "concat (map k (star_greedy (rmatch (Chr P)) n (pv, (x # xs) @ ys, g)))
          = concat (map k (star_greedy (rmatch (Chr P)) m (Some x, xs @ ys, g)))
            @ k (pv, x # xs @ ys, g)"
    by (simp add: n step unread_def del: rmatch.simps)
  also have "k (pv, x # xs @ ys, g) = []"
    using x by (rule assms(3))
  also have "concat (map k (star_greedy (rmatch (Chr P)) m (Some x, xs @ ys, g)))
               = k (if xs = [] then Some x else Some (last xs), ys, g)"
    using xs m by (rule Cons.IH)
  finally show ?case by simp
qed

lemma many1_then:
  assumes "xs \<noteq> []" and "\<forall>c \<in> set xs. P c"
    and "ys = [] \<or> \<not> P (hd ys)"
    and "\<And>pv' z zs. P z \<Longrightarrow> rmatch b (pv', z # zs, g) = []"
  shows "rmatch (Seq (many1 (Chr P)) b) (pv, xs @ ys, g) = rmatch b (Some (last xs), ys, g)"
proof -
  from assms(1) obtain x xs' where xs: "xs = x # xs'" by (cases xs) auto
  with assms(2) have x: "P x" and xs': "\<forall>c \<in> set xs'. P c" by simp_all
  have "rmatch (Seq (many1 (Chr P)) b) (pv, xs @ ys, g)
          = concat (map (rmatch b)
              (star_greedy (rmatch (Chr P)) (length (xs' @ ys)) (Some x, xs' @ ys, g)))"
    using x by (simp add: many1_def xs unread_def)
  also have "\<dots> = rmatch b (if xs' = [] then Some x else Some (last xs'), ys, g)"
  proof (rule star_greedy_then)
    show "length xs' \<le> length (xs' @ ys)" by simp
  qed (use xs' assms(3) assms(4) in auto)
  finally show ?thesis by (simp add: xs)
qed

lemma group_many1_then:
  assumes "xs \<noteq> []" and "\<forall>c \<in> set xs. P c"
    and "ys = [] \<or> \<not> P (hd ys)"
    and "\<And>pv' z zs g'. P z \<Longrightarrow> rmatch b (pv', z # zs, g') = []"
  shows "rmatch (Seq (Grp (many1 (Chr P))) b) (pv, xs @ ys, g)
           = rmatch b (Some (last xs), ys, Some xs)"
proof -
  from assms(1) obtain x xs' where xs: "xs = x # xs'" by (cases xs) auto
  with assms(2) have x: "P x" and xs': "\<forall>c \<in> set xs'. P c" by simp_all
  let ?h = "\<lambda>st'. (fst st', unread st',
                    Some (take (length (xs @ ys) - length (unread st')) (xs @ ys)))"
  let ?k = "\<lambda>st'. rmatch b (?h st')"
  have fails: "?k (pv', z # zs, g) = []" if "P z" for pv' z zs
    using that by (simp add: unread_def assms(4))
  have "rmatch (Seq (Grp (many1 (Chr P))) b) (pv, xs @ ys, g)
          = concat (map ?k
              (star_greedy (rmatch (Chr P)) (length (xs' @ ys)) (Some x, xs' @ ys, g)))"
    using x by (simp add: many1_def xs unread_def comp_def)
  also have "\<dots> = ?k (if xs' = [] then Some x else Some (last xs'), ys, g)"
  proof (rule star_greedy_then)
    show "length xs' \<le> length (xs' @ ys)" by simp
  qed (use xs' assms(3) fails in auto)
  finally show ?thesis by (simp add: xs unread_def)
qed

lemma lit_then:
  "rmatch (Seq (lit w) b) (pv, w @ t, g)
     = rmatch b (if w = [] then pv else Some (last w), t, g)"
  by (induction w arbitrary: pv) (simp_all add: lit_def)

lemma lit_fails:
  assumes "w \<noteq> []" and "z \<noteq> hd w"
  shows "rmatch (Seq (lit w) b) (pv, z # zs, g) = []"
  using assms by (cases w) (simp_all add: lit_def)

lemma space_not_name_char:
  "is_space z \<Longrightarrow> z \<notin> set (alnum @ ''_.-'')"
  by (auto simp add: is_space_def whitespace_def alnum_def ascii_lowercase_def
        ascii_uppercase_def digits_def)

lemma import_match:
  assumes "m \<noteq> []" and "\<forall>c \<in> set m. c \<in> set (alnum @ ''_.-'')"
    and "ws1 \<noteq> []" and "\<forall>c \<in> set ws1. is_space c"
    and "ws2 \<noteq> []" and "\<forall>c \<in> set ws2. is_space c"
  shows "rmatch import_rx (pv, ''from'' @ ws1 @ m @ ws2 @ ''import'' @ rest, None)
           = [(Some CHR ''t'', rest, Some m)]"
proof -
  let ?name = "\<lambda>x. x \<in> set (alnum @ ''_.-'')"
  let ?R4 = "Seq (lit ''import'') Eps"
  let ?R3 = "Seq (many1 (Chr is_space)) ?R4"
  let ?R2 = "Seq (Grp (many1 (Chr ?name))) ?R3"
  let ?R1 = "Seq (many1 (Chr is_space)) ?R2"
  have rx: "import_rx = Seq (lit ''from'') ?R1"
    by (simp add: import_rx_def seqs_def cls_def)
  have hm: "\<not> is_space (hd m)"
    using assms(1,2) space_not_name_char by (cases m) auto
  have hw: "?name (hd ws2) \<Longrightarrow> False"
    using assms(5,6) space_not_name_char by (cases ws2) auto
  have hi: "\<not> is_space CHR ''i''"
    by (simp add: is_space_def whitespace_def)
  have f4: "rmatch ?R4 (pv', z # zs, g) = []" if "is_space z" for pv' z zs g
    using that hi by (intro lit_fails) auto
  have f3: "rmatch ?R3 (pv', z # zs, g') = []" if "?name z" for pv' z zs g'
    using that space_not_name_char [of z] by (auto simp add: many1_def)
  have f2: "rmatch ?R2 (pv', z # zs, g) = []" if "is_space z" for pv' z zs g
    using that space_not_name_char [of z] by (simp add: many1_def)
  have "rmatch import_rx (pv, ''from'' @ ws1 @ m @ ws2 @ ''import'' @ rest, None)
          = rmatch ?R1 (Some CHR ''m'', ws1 @ (m @ ws2 @ ''import'' @ rest), None)"
    unfolding rx by (subst lit_then) simp
  also have "\<dots> = rmatch ?R2 (Some (last ws1), m @ ws2 @ ''import'' @ rest, None)"
    using assms(3,4) _ f2
  proof (rule many1_then)
    show "m @ ws2 @ ''import'' @ rest = [] \<or> \<not> is_space (hd (m @ ws2 @ ''import'' @ rest))"
      using assms(1) hm by simp
  qed
  also have "\<dots> = rmatch ?R3 (Some (last m), ws2 @ ''import'' @ rest, Some m)"
    using assms(1,2) _ f3
  proof (rule group_many1_then)
    show "ws2 @ ''import'' @ rest = [] \<or> \<not> ?name (hd (ws2 @ ''import'' @ rest))"
      using assms(5) hw by auto
  qed
  also have "\<dots> = rmatch ?R4 (Some (last ws2), ''import'' @ rest, Some m)"
    using assms(5,6) _ f4
  proof (rule many1_then)
    show "''import'' @ rest = [] \<or> \<not> is_space (hd (''import'' @ rest))"
      using hi by simp
  qed
  also have "\<dots> = [(Some CHR ''t'', rest, Some m)]"
    by (subst lit_then) simp
  finally show ?thesis .
qed

lemma findall_import:
  assumes "m \<noteq> []" and "\<forall>c \<in> set m. c \<in> set (alnum @ ''_.-'')"
    and "ws1 \<noteq> []" and "\<forall>c \<in> set ws1. is_space c"
    and "ws2 \<noteq> []" and "\<forall>c \<in> set ws2. is_space c"
  shows "findall import_rx (''from'' @ ws1 @ m @ ws2 @ ''import'' @ rest)
           = m # findall_from import_rx (Some CHR ''t'') rest"
proof -
  let ?tl = "''rom'' @ ws1 @ m @ ws2 @ ''import'' @ rest"
  have line: "''from'' @ ws1 @ m @ ws2 @ ''import'' @ rest = CHR ''f'' # ?tl" by simp
  have r: "rmatch import_rx (None, CHR ''f'' # ?tl, None) = [(Some CHR ''t'', rest, Some m)]"
    using import_match [OF assms, of None rest] by simp
  show ?thesis
    unfolding findall_def line
    by (subst findall_from.simps) (simp add: r group1_def unread_def del: append.simps)
qed


subsection \<open>References of a Python file\<close>

lemma py_suffix_name:
  assumes "suffix p = ''.py''"
  shows "\<exists>stem. name p = stem @ ''.py''"
proof -
  from assms obtain i where "drop i (name p) = ''.py''"
    by (auto simp add: suffix_def split: option.splits if_splits)
  then have "name p = take i (name p) @ ''.py''"
    by (metis append_take_drop_id)
  then show ?thesis ..
qed

lemma py_is_not_cmake:
  assumes "suffix p = ''.py''"
  shows "\<not> endswith (lower (name p)) ''.cmake''"
    and "\<not> endswith (lower (name p)) ''cmakelists.txt''"
proof -
  from py_suffix_name [OF assms] obtain stem where n: "name p = stem @ ''.py''" ..
  have y: "lower_char CHR ''y'' = CHR ''y''"
    by (simp add: lower_char_def ascii_uppercase_def ascii_lowercase_def)
  show "\<not> endswith (lower (name p)) ''.cmake''"
    by (simp add: n endswith_def lower_def y)
  show "\<not> endswith (lower (name p)) ''cmakelists.txt''"
    by (simp add: n endswith_def lower_def y)
qed

lemma process_line_py:
  assumes "suffix file_path = ''.py''"
  shows "process_line fs verbose file_path st line
           = foldl (add_import_ref file_path) st (findall import_rx line)"
  using assms py_is_not_cmake [OF assms] by (simp add: process_line_def)

lemma map_of_dict_add:
  "map_of (dict_add k v d) k'
     = (if k' = k then Some (insert v (get_set d k)) else map_of d k')"
  by (induction d) (auto simp add: get_set_def)

lemma get_set_dict_add:
  "get_set (dict_add k v d) k' = (if k' = k then insert v (get_set d k) else get_set d k')"
  by (simp add: get_set_def map_of_dict_add)

lemma keys_dict_add:
  "set (keys (dict_add k v d)) = insert k (set (keys d))"
  by (induction k v d rule: dict_add.induct) (auto simp add: keys_def)

lemma add_import_ref_records:
  "file_path \<in> get_set (list_referenced (add_import_ref file_path st ref)) (ref @ ''.py'')"
  "ref @ ''.py'' \<in> set (keys (list_referenced (add_import_ref file_path st ref)))"
  by (simp_all add: add_import_ref_def get_set_dict_add keys_dict_add)

lemma add_import_ref_keeps:
  "x \<in> get_set (list_referenced st) k
     \<Longrightarrow> x \<in> get_set (list_referenced (add_import_ref file_path st ref)) k"
  "k \<in> set (keys (list_referenced st))
     \<Longrightarrow> k \<in> set (keys (list_referenced (add_import_ref file_path st ref)))"
  by (auto simp add: add_import_ref_def get_set_dict_add keys_dict_add)

lemma foldl_add_import_ref_keeps:
  "x \<in> get_set (list_referenced st) k \<and> k \<in> set (keys (list_referenced st))
     \<Longrightarrow> x \<in> get_set (list_referenced (foldl (add_import_ref file_path) st refs)) k
         \<and> k \<in> set (keys (list_referenced (foldl (add_import_ref file_path) st refs)))"
proof (induction refs arbitrary: st)
  case Nil
  then show ?case by simp
next
  case (Cons r refs)
  have "x \<in> get_set (list_referenced (add_import_ref file_path st r)) k
          \<and> k \<in> set (keys (list_referenced (add_import_ref file_path st r)))"
    using Cons.prems add_import_ref_keeps by blast
  then show ?case using Cons.IH by simp
qed

lemma foldl_add_import_ref_records:
  "ref \<in> set refs
     \<Longrightarrow> file_path \<in> get_set (list_referenced (foldl (add_import_ref file_path) st refs))
                        (ref @ ''.py'')
         \<and> ref @ ''.py'' \<in> set (keys (list_referenced (foldl (add_import_ref file_path) st refs)))"
proof (induction refs arbitrary: st)
  case Nil
  then show ?case by simp
next
  case (Cons r refs)
  show ?case
  proof (cases "ref = r")
    case True
    have "file_path \<in> get_set (list_referenced (add_import_ref file_path st r)) (ref @ ''.py'')
            \<and> ref @ ''.py'' \<in> set (keys (list_referenced (add_import_ref file_path st r)))"
      by (simp add: add_import_ref_records True)
    from foldl_add_import_ref_keeps [OF this, of file_path refs]
    show ?thesis by simp
  next
    case False
    with Cons.prems have "ref \<in> set refs" by simp
    then show ?thesis using Cons.IH by simp
  qed
qed

text \<open>
  Claim C3 says that the module-import strategy records the last segment of the dotted
  path with \<open>.py\<close> appended, so that \<open>from pkg.helpers import x\<close> refers to
  \<open>helpers.py\<close>. Line 233 appends \<open>.py\<close> to the whole match: the reference recorded
  for \<open>/p/pkg/use.py\<close> is \<open>pkg.helpers.py\<close>, which is reported missing although
  \<open>/p/pkg/helpers.py\<close> exists; \<open>helpers.py\<close> is referenced by \<open>/p/app.py\<close> only.
\<close>

theorem import_last_segment_counterexample:
  "findall import_rx ''from pkg.helpers import x'' = [''pkg.helpers'']
   \<and> [''p'', ''pkg'', ''helpers.py'']
       \<in> set (list_exist (analyze_project_files tree_imports
           (interest_of DEFAULT_FILES_OF_INTEREST) [''p''] DEFAULT_FOLDERS_TO_EXCLUDE False))
   \<and> keys (list_referenced (analyze_project_files tree_imports
           (interest_of DEFAULT_FILES_OF_INTEREST) [''p''] DEFAULT_FOLDERS_TO_EXCLUDE False))
       = [''helpers.py'', ''pkg.helpers.py'']
   \<and> get_set (list_referenced (analyze_project_files tree_imports
           (interest_of DEFAULT_FILES_OF_INTEREST) [''p''] DEFAULT_FOLDERS_TO_EXCLUDE False))
         ''helpers.py'' = {[''p'', ''app.py'']}
   \<and> get_set (list_referenced (analyze_project_files tree_imports
           (interest_of DEFAULT_FILES_OF_INTEREST) [''p''] DEFAULT_FOLDERS_TO_EXCLUDE False))
         ''pkg.helpers.py'' = {[''p'', ''pkg'', ''use.py'']}
   \<and> missing_basenames
        (list_exist (analyze_project_files tree_imports
           (interest_of DEFAULT_FILES_OF_INTEREST) [''p''] DEFAULT_FOLDERS_TO_EXCLUDE False))
        (list_referenced (analyze_project_files tree_imports
           (interest_of DEFAULT_FILES_OF_INTEREST) [''p''] DEFAULT_FOLDERS_TO_EXCLUDE False))
       = [''pkg.helpers.py'']"
proof (intro conjI)
qed code_simp+

text \<open>
  Claim C3, amended. For every match of \<open>from <dotted-path> import\<close> in a line of a
  \<open>.py\<close> file, the strategy records as the referenced basename the whole dotted path
  with \<open>.py\<close> appended, referenced by that file; a line that starts with \<open>from\<close>,
  white space, a dotted path \<open>m\<close>, white space and \<open>import\<close> has \<open>m\<close> as its first
  match. In particular, for a \<open>.py\<close> file containing \<open>from helpers import thing\<close> in
  a tree with no \<open>helpers.py\<close>, the missing names are \<open>helpers.py\<close>, referenced by
  that file.
\<close>

theorem import_records_whole_dotted_path:
  "(suffix file_path = ''.py'' \<longrightarrow>
      (\<forall>ref \<in> set (findall import_rx line).
         ref @ ''.py''
           \<in> set (keys (list_referenced (process_line fs verbose file_path st line)))
         \<and> file_path
           \<in> get_set (list_referenced (process_line fs verbose file_path st line))
                      (ref @ ''.py'')))
   \<and> (m \<noteq> [] \<and> (\<forall>c \<in> set m. c \<in> set (alnum @ ''_.-''))
        \<and> ws1 \<noteq> [] \<and> (\<forall>c \<in> set ws1. is_space c)
        \<and> ws2 \<noteq> [] \<and> (\<forall>c \<in> set ws2. is_space c) \<longrightarrow>
      findall import_rx (''from'' @ ws1 @ m @ ws2 @ ''import'' @ rest)
        = m # findall_from import_rx (Some CHR ''t'') rest)
   \<and> missing_basenames
        (list_exist (analyze_project_files tree_scenario_d
           (interest_of DEFAULT_FILES_OF_INTEREST) [''p''] DEFAULT_FOLDERS_TO_EXCLUDE False))
        (list_referenced (analyze_project_files tree_scenario_d
           (interest_of DEFAULT_FILES_OF_INTEREST) [''p''] DEFAULT_FOLDERS_TO_EXCLUDE False))
       = [''helpers.py'']
   \<and> get_set (list_referenced (analyze_project_files tree_scenario_d
           (interest_of DEFAULT_FILES_OF_INTEREST) [''p''] DEFAULT_FOLDERS_TO_EXCLUDE False))
         ''helpers.py'' = {[''p'', ''app.py'']}"
proof (intro conjI impI ballI)
  fix ref
  assume py: "suffix file_path = ''.py''" and ref: "ref \<in> set (findall import_rx line)"
  from foldl_add_import_ref_records [OF ref, of file_path st]
  show "ref @ ''.py'' \<in> set (keys (list_referenced (process_line fs verbose file_path st line)))"
    and "file_path \<in> get_set (list_referenced (process_line fs verbose file_path st line))
                        (ref @ ''.py'')"
    by (simp_all add: process_line_py [OF py])
next
  assume "m \<noteq> [] \<and> (\<forall>c \<in> set m. c \<in> set (alnum @ ''_.-''))
        \<and> ws1 \<noteq> [] \<and> (\<forall>c \<in> set ws1. is_space c)
        \<and> ws2 \<noteq> [] \<and> (\<forall>c \<in> set ws2. is_space c)"
  then show "findall import_rx (''from'' @ ws1 @ m @ ws2 @ ''import'' @ rest)
        = m # findall_from import_rx (Some CHR ''t'') rest"
    by (intro findall_import) blast+
next
  show "missing_basenames
        (list_exist (analyze_project_files tree_scenario_d
           (interest_of DEFAULT_FILES_OF_INTEREST) [''p''] DEFAULT_FOLDERS_TO_EXCLUDE False))
        (list_referenced (analyze_project_files tree_scenario_d
           (interest_of DEFAULT_FILES_OF_INTEREST) [''p''] DEFAULT_FOLDERS_TO_EXCLUDE False))
       = [''helpers.py'']"
    by code_simp
next
  show "get_set (list_referenced (analyze_project_files tree_scenario_d
           (interest_of DEFAULT_FILES_OF_INTEREST) [''p''] DEFAULT_FOLDERS_TO_EXCLUDE False))
         ''helpers.py'' = {[''p'', ''app.py'']}"
    by code_simp
qed

theorem import_records_whole_dotted_path_witness:
  "suffix [''p'', ''pkg'', ''use.py''] = ''.py''
   \<and> findall import_rx (''from'' @ '' '' @ ''pkg.helpers'' @ '' '' @ ''import'' @ '' x'')
       = ''pkg.helpers'' # findall_from import_rx (Some CHR ''t'') '' x''
   \<and> ''pkg.helpers.py''
       \<in> set (keys (list_referenced (process_line tree_imports False [''p'', ''pkg'', ''use.py'']
            \<lparr>list_exist = [], list_referenced = [], found_files_map = [], key_subfolders = [],
              no_go_areas = [], printed = [], raised = None\<rparr>
            (''from'' @ '' '' @ ''pkg.helpers'' @ '' '' @ ''import'' @ '' x''))))
   \<and> [''p'', ''pkg'', ''use.py'']
       \<in> get_set (list_referenced (process_line tree_imports False [''p'', ''pkg'', ''use.py'']
            \<lparr>list_exist = [], list_referenced = [], found_files_map = [], key_subfolders = [],
              no_go_areas = [], printed = [], raised = None\<rparr>
            (''from'' @ '' '' @ ''pkg.helpers'' @ '' '' @ ''import'' @ '' x'')))
           ''pkg.helpers.py''"
proof -
  let ?line = "''from'' @ '' '' @ ''pkg.helpers'' @ '' '' @ ''import'' @ '' x''"
  let ?st = "\<lparr>list_exist = [], list_referenced = [], found_files_map = [], key_subfolders = [],
              no_go_areas = [], printed = [], raised = None\<rparr>"
  note t = import_records_whole_dotted_path
             [of "[''p'', ''pkg'', ''use.py'']" ?line tree_imports False ?st
                 "''pkg.helpers''" "'' ''" "'' ''" "'' x''"]
  have py: "suffix [''p'', ''pkg'', ''use.py''] = ''.py''"
    by code_simp
  have m: "''pkg.helpers'' \<noteq> [] \<and> (\<forall>c \<in> set ''pkg.helpers''. c \<in> set (alnum @ ''_.-''))"
    by code_simp
  have w: "'' '' \<noteq> [] \<and> (\<forall>c \<in> set '' ''. is_space c)"
    by code_simp
  from t m w have f: "findall import_rx ?line
       = ''pkg.helpers'' # findall_from import_rx (Some CHR ''t'') '' x''"
    by blast
  then have "''pkg.helpers'' \<in> set (findall import_rx ?line)"
    by (simp del: append.simps)
  with t py have "''pkg.helpers'' @ ''.py''
       \<in> set (keys (list_referenced (process_line tree_imports False [''p'', ''pkg'', ''use.py'']
            ?st ?line)))
     \<and> [''p'', ''pkg'', ''use.py'']
       \<in> get_set (list_referenced (process_line tree_imports False [''p'', ''pkg'', ''use.py'']
            ?st ?line)) (''pkg.helpers'' @ ''.py'')"
    by blast
  then show ?thesis using py f by simp
qed

subsection \<open>An include of a file that does not exist\<close>

text \<open>
  Claim C1 says that a quoted include whose target cannot be resolved, such as
  \<open>#include "foo.h"\<close> with no \<open>foo.h\<close> anywhere, is dropped and produces no missing
  entry. The handler of lines 213 to 215 is there to do so, but \<open>resolve()\<close> without
  \<open>strict=True\<close> does not raise for a path that does not exist: the reference is
  recorded under the name \<open>foo.h\<close>, \<open>foo.h\<close> is reported missing, and no warning is
  printed even in verbose mode.
\<close>

theorem unresolved_include_is_recorded:
  "lookup tree_missing_header [''p'', ''foo.h''] = None
   \<and> findall include_rx (''#include '' @ [dquote] @ ''foo.h'' @ [dquote]) = [''foo.h'']
   \<and> resolve tree_missing_header (joinpath (parent [''p'', ''main.c'']) ''foo.h'')
       = Inr [''p'', ''foo.h'']
   \<and> list_referenced (analyze_project_files tree_missing_header
         (interest_of DEFAULT_FILES_OF_INTEREST) [''p''] DEFAULT_FOLDERS_TO_EXCLUDE True)
       = [(''foo.h'', {[''p'', ''main.c'']})]
   \<and> missing_basenames
        (list_exist (analyze_project_files tree_missing_header
           (interest_of DEFAULT_FILES_OF_INTEREST) [''p''] DEFAULT_FOLDERS_TO_EXCLUDE True))
        (list_referenced (analyze_project_files tree_missing_header
           (interest_of DEFAULT_FILES_OF_INTEREST) [''p''] DEFAULT_FOLDERS_TO_EXCLUDE True))
       = [''foo.h'']
   \<and> printed (analyze_project_files tree_missing_header
         (interest_of DEFAULT_FILES_OF_INTEREST) [''p''] DEFAULT_FOLDERS_TO_EXCLUDE True)
       = [Stdout ([CHR 0x0A] @ ''Analyzing project files...'')]"
proof (intro conjI)
qed code_simp+

subsection \<open>The lines printed for a duplicated name\<close>

text \<open>
  Claim C4 says that the warnings list a duplicated basename once, with its full path
  list in sorted order. Line 298 prints \<open>paths[0]\<close>, the path met first by the walk, and
  line 299 prints \<open>sorted(paths)[1:]\<close>: when the path met first is not the least one,
  it is printed twice and the least one is not printed. For \<open>/p/util.c\<close> and
  \<open>/p/a/util.c\<close> the block shows \<open>/p/util.c\<close> twice and never \<open>/p/a/util.c\<close>.
\<close>

theorem duplicate_listing_drops_a_path:
  "found_files_map (analyze_project_files tree_two_utils
       (interest_of DEFAULT_FILES_OF_INTEREST) [''p''] DEFAULT_FOLDERS_TO_EXCLUDE False)
     = [(''util.c'', [[''p'', ''util.c''], [''p'', ''a'', ''util.c'']])]
   \<and> sort [[''p'', ''util.c''], [''p'', ''a'', ''util.c'']]
     = [[''p'', ''a'', ''util.c''], [''p'', ''util.c'']]
   \<and> warnings_block (found_files_map (analyze_project_files tree_two_utils
       (interest_of DEFAULT_FILES_OF_INTEREST) [''p''] DEFAULT_FOLDERS_TO_EXCLUDE False)) ''.c''
     = [''.c files with identical names:'',
        ''  util.c: /p/util.c'',
        ''         /p/util.c'']"
proof (intro conjI)
qed code_simp+

end
